theory Spec2Isabelle
  imports Complex_Main
begin

section \<open>Python floats\<close>

text \<open>
  A Python float is an IEEE 754 double: a rational \<open>m * 2 ^ e\<close> with \<open>|m| < 2 ^ 53\<close> and
  \<open>- 1074 \<le> e \<le> 971\<close>, an infinity, or a NaN. \<open>Finite q\<close> is the double whose value is
  \<open>q\<close>; the two zeros, which are equal under \<^verbatim>\<open>==\<close>, are the one value \<open>Finite 0\<close>.
\<close>

datatype pyfloat = Finite rat | PosInf | NegInf | NaN

text \<open>The number of binary digits of a natural number, and the powers of two.\<close>

fun bitlen :: "nat \<Rightarrow> nat" where
  "bitlen n = (if n = 0 then 0 else Suc (bitlen (n div 2)))"

definition pow2 :: "int \<Rightarrow> rat" where
  "pow2 k = (if 0 \<le> k then 2 ^ nat k else 1 / 2 ^ nat (- k))"

text \<open>The exponent of a positive rational: the \<open>k\<close> with \<open>2 ^ k \<le> a < 2 ^ (k + 1)\<close>.\<close>

definition ilog2 :: "rat \<Rightarrow> int" where
  "ilog2 a = (if 1 \<le> a then int (bitlen (nat \<lfloor>a\<rfloor>)) - 1
              else - int (bitlen (nat (\<lceil>1 / a\<rceil> - 1))))"

text \<open>The nearest integer, a tie going to the even one.\<close>

definition round_half_even :: "rat \<Rightarrow> int" where
  "round_half_even t =
     (let f = \<lfloor>t\<rfloor>
      in if t - of_int f < 1 / 2 then f
         else if 1 / 2 < t - of_int f then f + 1
         else if even f then f else f + 1)"

text \<open>
  The double nearest to a rational, ties to the even significand, as the conversion
  of a decimal literal, the conversion of an integer and every arithmetic operation
  round: the value is scaled so that 53 bits stand before the point (fewer in the
  subnormal range, where the exponent stays at \<open>- 1074\<close>), rounded to an integer and
  scaled back; a result of \<open>2 ^ 1024\<close> or more in magnitude is an infinity.
\<close>

definition round_double :: "rat \<Rightarrow> pyfloat" where
  "round_double x =
     (if x = 0 then Finite 0
      else let e = max (ilog2 \<bar>x\<bar> - 52) (- 1074);
               v = of_int (round_half_even (\<bar>x\<bar> / pow2 e)) * pow2 e
           in if 2 ^ 1024 \<le> v then (if 0 < x then PosInf else NegInf)
              else Finite (sgn x * v))"

text \<open>\<^verbatim>\<open>x + y\<close> on two floats: the exact sum, rounded; it overflows to an infinity
  without an exception, and the sum of the two infinities is a NaN.\<close>

fun float_add :: "pyfloat \<Rightarrow> pyfloat \<Rightarrow> pyfloat" where
  "float_add (Finite a) (Finite b) = round_double (a + b)"
| "float_add NaN y = NaN"
| "float_add x NaN = NaN"
| "float_add PosInf NegInf = NaN"
| "float_add NegInf PosInf = NaN"
| "float_add PosInf y = PosInf"
| "float_add NegInf y = NegInf"
| "float_add (Finite a) PosInf = PosInf"
| "float_add (Finite a) NegInf = NegInf"

section \<open>Decoded JSON values and the Python operations applied to them\<close>

text \<open>
  The values \<^verbatim>\<open>json.loads\<close> returns: \<^verbatim>\<open>None\<close>, booleans, integers, floats, strings,
  lists and dictionaries (an association list in insertion order; a decoded dictionary
  has no duplicate keys). A number written without a fraction and without an exponent
  decodes to an integer, \<open>JNum\<close>. Any other number decodes to a float: \<open>JReal q\<close> is the
  float that a literal of the value \<open>q\<close> decodes to, which is \<open>round_double q\<close>, the
  double nearest to \<open>q\<close>, an infinity when \<open>q\<close> is out of range (\<^verbatim>\<open>1e999\<close>, or the literal
  \<^verbatim>\<open>Infinity\<close> that \<^verbatim>\<open>json.loads\<close> accepts beyond JSON). The literal \<^verbatim>\<open>NaN\<close>, which it
  accepts as well, is not represented.
\<close>

datatype json =
    JNull
  | JBool bool
  | JNum int
  | JReal rat
  | JStr string
  | JList "json list"
  | JObj "(string \<times> json) list"

text \<open>
  The exceptions that can leave the module. \<open>APIError\<close> is the module's own class;
  the others are Python's built-in ones, raised by the standard library or by an
  operator applied to a value of the wrong shape.
\<close>

datatype error =
    APIError string
  | URLError string
  | UnicodeDecodeError
  | KeyError string
  | TypeError
  | OverflowError
  | NoInstance

text \<open>
  \<open>NoInstance\<close> is not a Python exception: it is the answer of the model when a
  reference does not denote an instance of the expected class. Python code cannot
  build such a reference.
\<close>

text \<open>\<^verbatim>\<open>v[key]\<close> for a string \<open>key\<close>.\<close>

fun subscript :: "json \<Rightarrow> string \<Rightarrow> error + json" where
  "subscript (JObj kvs) key =
     (case map_of kvs key of None \<Rightarrow> Inl (KeyError key) | Some v \<Rightarrow> Inr v)"
| "subscript _ key = Inl TypeError"

text \<open>The items a \<^verbatim>\<open>for\<close> loop over \<open>v\<close> visits: a dictionary yields its keys, a
  string its characters, and a number, a boolean or \<^verbatim>\<open>None\<close> is not iterable.\<close>

fun py_iter :: "json \<Rightarrow> error + json list" where
  "py_iter (JList xs) = Inr xs"
| "py_iter (JObj kvs) = Inr (map (\<lambda>kv. JStr (fst kv)) kvs)"
| "py_iter (JStr s) = Inr (map (\<lambda>c. JStr [c]) s)"
| "py_iter _ = Inl TypeError"

text \<open>\<^verbatim>\<open>a == b\<close>: a boolean is the integer 0 or 1, an integer and a float are equal
  when their values are, lists are compared item by item, and dictionaries regardless
  of the order of their keys.\<close>

fun py_eq :: "json \<Rightarrow> json \<Rightarrow> bool" where
  "py_eq JNull JNull = True"
| "py_eq (JBool a) (JBool b) = (a = b)"
| "py_eq (JBool a) (JNum n) = ((if a then 1 else 0) = n)"
| "py_eq (JNum m) (JBool b) = (m = (if b then 1 else 0))"
| "py_eq (JNum m) (JNum n) = (m = n)"
| "py_eq (JBool a) (JReal q) = (round_double q = Finite (if a then 1 else 0))"
| "py_eq (JReal p) (JBool b) = (round_double p = Finite (if b then 1 else 0))"
| "py_eq (JNum m) (JReal q) = (round_double q = Finite (of_int m))"
| "py_eq (JReal p) (JNum n) = (round_double p = Finite (of_int n))"
| "py_eq (JReal p) (JReal q) = (round_double p = round_double q)"
| "py_eq (JStr s) (JStr t) = (s = t)"
| "py_eq (JList xs) (JList ys) = list_all2 py_eq xs ys"
| "py_eq (JObj kvs) (JObj kvs') =
     (length kvs = length kvs' \<and>
      list_all (\<lambda>kv. case map_of kvs' (fst kv) of
                        None \<Rightarrow> False
                      | Some v' \<Rightarrow> py_eq (snd kv) v') kvs)"
| "py_eq _ _ = False"

text \<open>\<^verbatim>\<open>key in v\<close> for a string \<open>key\<close>: key membership in a dictionary, item
  membership in a list, substring test in a string.\<close>

fun is_substring :: "string \<Rightarrow> string \<Rightarrow> bool" where
  "is_substring key [] = (key = [])"
| "is_substring key (c # cs) = (take (length key) (c # cs) = key \<or> is_substring key cs)"

fun contains :: "json \<Rightarrow> string \<Rightarrow> error + bool" where
  "contains (JObj kvs) key = Inr (key \<in> set (map fst kvs))"
| "contains (JList xs) key = Inr (list_ex (\<lambda>x. py_eq x (JStr key)) xs)"
| "contains (JStr s) key = Inr (is_substring key s)"
| "contains _ key = Inl TypeError"

section \<open>The transport and the store\<close>

text \<open>
  What one \<^verbatim>\<open>urlopen\<close>, \<^verbatim>\<open>read().decode('utf-8')\<close> and \<^verbatim>\<open>json.loads\<close> gives for a
  URL: \<^verbatim>\<open>urlopen\<close> raises \<^verbatim>\<open>HTTPError\<close> (a status of 400 or more), or another exception
  (\<^verbatim>\<open>URLError\<close> for a failed connection), or the body is not UTF-8, or it is not JSON
  (\<^verbatim>\<open>ValueError\<close>), or it decodes to a value. The strings are the exceptions' texts.
\<close>

datatype response =
    HTTPError string
  | ConnectionFailed string
  | NotUTF8
  | NotJSON string
  | Decoded json

text \<open>
  The collaborators outside the module: the server (its answer may depend on the
  requests made so far), Python's \<^verbatim>\<open>%s\<close> formatting of an identifier,
  \<^verbatim>\<open>date.isoformat\<close> on a date given by its ordinal, and the ordinal of
  \<^verbatim>\<open>date.today()\<close>.
\<close>

record env =
  urlopen :: "string list \<Rightarrow> string \<Rightarrow> response"
  format_s :: "json \<Rightarrow> string"
  isoformat :: "int \<Rightarrow> string"
  today :: int

type_synonym ref = nat

record Athlete =
  athlete_id :: json
  athlete_url :: string

record Ride =
  ride_id :: json
  ride_name :: json
  ride_detail :: "ref option"
  ride_segments :: "ref list"
  ride_stream :: "ref option"

record RideStream =
  stream_id :: json
  stream_attr :: json

record RideDetail =
  detail_id :: json
  detail_attr :: json

record Segment =
  segment_id :: json
  segment_segment :: json
  segment_time :: json
  segment_detail :: "ref option"

record SegmentDetail =
  sdetail_id :: json
  effort_attr :: json
  segment_attr :: json

datatype obj =
    ORide Ride
  | ORideStream RideStream
  | ORideDetail RideDetail
  | OSegment Segment
  | OSegmentDetail SegmentDetail

text \<open>
  The state the module works on: the URLs requested so far, oldest first, and the
  instances that exist, a reference being an index into \<open>heap\<close>. An instance is
  entered when its constructor returns: one whose \<^verbatim>\<open>__init__\<close> raises is bound to no
  name and no field.
\<close>

record world =
  log :: "string list"
  heap :: "obj list"

definition BASE_API :: string where
  "BASE_API = ''http://www.strava.com/api/v1''"

definition new :: "obj \<Rightarrow> world \<Rightarrow> ref \<times> world" where
  "new ob w = (length (heap w), w\<lparr>heap := heap w @ [ob]\<rparr>)"

definition obj_at :: "world \<Rightarrow> ref \<Rightarrow> obj option" where
  "obj_at w a = (if a < length (heap w) then Some (heap w ! a) else None)"

definition put :: "ref \<Rightarrow> obj \<Rightarrow> world \<Rightarrow> world" where
  "put a ob w = w\<lparr>heap := (heap w)[a := ob]\<rparr>"

section \<open>StravaObject.load\<close>

text \<open>The text of a \<^verbatim>\<open>KeyError\<close>: the \<^verbatim>\<open>repr\<close> of the key, which for a key of
  letters and underscores, as every key of this module is, is the key in single quotes.\<close>

definition key_repr :: "string \<Rightarrow> string" where
  "key_repr key = [CHR 0x27] @ key @ [CHR 0x27]"

text \<open>
  \<^verbatim>\<open>load(url, key)\<close>, both branches of the version test being the same: only
  \<^verbatim>\<open>HTTPError\<close> is caught around \<^verbatim>\<open>urlopen\<close>, decoding the body is outside any
  \<^verbatim>\<open>try\<close>, and only \<^verbatim>\<open>ValueError\<close> and \<^verbatim>\<open>KeyError\<close> are caught around
  \<^verbatim>\<open>json.loads(txt)[key]\<close>.
\<close>

definition load :: "env \<Rightarrow> string \<Rightarrow> string option \<Rightarrow> world \<Rightarrow> (error + json) \<times> world" where
  "load E url key w =
     (let w' = w\<lparr>log := log w @ [BASE_API @ url]\<rparr> in
      case urlopen E (log w) (BASE_API @ url) of
        HTTPError e \<Rightarrow> (Inl (APIError (url @ '': request failed: '' @ e)), w')
      | ConnectionFailed e \<Rightarrow> (Inl (URLError e), w')
      | NotUTF8 \<Rightarrow> (Inl UnicodeDecodeError, w')
      | NotJSON e \<Rightarrow> (Inl (APIError (url @ '': parsing response failed: '' @ e)), w')
      | Decoded v \<Rightarrow>
          (case key of
             None \<Rightarrow> (Inr v, w')
           | Some k \<Rightarrow>
               (case subscript v k of
                  Inl (KeyError k') \<Rightarrow>
                    (Inl (APIError (url @ '': parsing response failed: '' @ key_repr k')), w')
                | Inl e \<Rightarrow> (Inl e, w')
                | Inr x \<Rightarrow> (Inr x, w'))))"

text \<open>Sequencing two steps that may raise.\<close>

definition and_then :: "error + 'a \<Rightarrow> ('a \<Rightarrow> error + 'b) \<Rightarrow> error + 'b" where
  "and_then r f = (case r of Inl e \<Rightarrow> Inl e | Inr x \<Rightarrow> f x)"

section \<open>RideDetail\<close>

definition RideDetail_init :: "env \<Rightarrow> json \<Rightarrow> world \<Rightarrow> (error + ref) \<times> world" where
  "RideDetail_init E oid w =
     (case load E (''/rides/'' @ format_s E oid) (Some ''ride'') w of
        (Inl e, w') \<Rightarrow> (Inl e, w')
      | (Inr v, w') \<Rightarrow>
          (let (a, w'') = new (ORideDetail \<lparr>detail_id = oid, detail_attr = v\<rparr>) w'
           in (Inr a, w'')))"

definition RideDetail_athlete :: "RideDetail \<Rightarrow> error + json" where
  "RideDetail_athlete d =
     and_then (subscript (detail_attr d) ''athlete'') (\<lambda>v. subscript v ''name'')"

definition RideDetail_athlete_id :: "RideDetail \<Rightarrow> error + json" where
  "RideDetail_athlete_id d =
     and_then (subscript (detail_attr d) ''athlete'') (\<lambda>v. subscript v ''id'')"

definition RideDetail_bike :: "RideDetail \<Rightarrow> error + json" where
  "RideDetail_bike d =
     and_then (subscript (detail_attr d) ''bike'') (\<lambda>v. subscript v ''name'')"

definition RideDetail_bike_id :: "RideDetail \<Rightarrow> error + json" where
  "RideDetail_bike_id d =
     and_then (subscript (detail_attr d) ''bike'') (\<lambda>v. subscript v ''id'')"

definition RideDetail_location :: "RideDetail \<Rightarrow> error + json" where
  "RideDetail_location d = subscript (detail_attr d) ''location''"

definition RideDetail_distance :: "RideDetail \<Rightarrow> error + json" where
  "RideDetail_distance d = subscript (detail_attr d) ''distance''"

definition RideDetail_moving_time :: "RideDetail \<Rightarrow> error + json" where
  "RideDetail_moving_time d = subscript (detail_attr d) ''movingTime''"

section \<open>RideStream\<close>

definition RideStream_init :: "env \<Rightarrow> json \<Rightarrow> world \<Rightarrow> (error + ref) \<times> world" where
  "RideStream_init E oid w =
     (case load E (''/streams/'' @ format_s E oid) None w of
        (Inl e, w') \<Rightarrow> (Inl e, w')
      | (Inr v, w') \<Rightarrow>
          (let (a, w'') = new (ORideStream \<lparr>stream_id = oid, stream_attr = v\<rparr>) w'
           in (Inr a, w'')))"

definition try_get_values :: "RideStream \<Rightarrow> string \<Rightarrow> error + json" where
  "try_get_values s key =
     and_then (contains (stream_attr s) key)
       (\<lambda>found. if found then subscript (stream_attr s) key else Inr (JList []))"

definition RideStream_altitude :: "RideStream \<Rightarrow> error + json" where
  "RideStream_altitude s = try_get_values s ''altitude''"

definition RideStream_altitude_original :: "RideStream \<Rightarrow> error + json" where
  "RideStream_altitude_original s = try_get_values s ''altitiude_original''"

definition RideStream_cadence :: "RideStream \<Rightarrow> error + json" where
  "RideStream_cadence s = try_get_values s ''cadence''"

definition RideStream_distance :: "RideStream \<Rightarrow> error + json" where
  "RideStream_distance s = try_get_values s ''distance''"

definition RideStream_grade_smooth :: "RideStream \<Rightarrow> error + json" where
  "RideStream_grade_smooth s = try_get_values s ''grade_smooth''"

definition RideStream_heartrate :: "RideStream \<Rightarrow> error + json" where
  "RideStream_heartrate s = try_get_values s ''heartrate''"

definition RideStream_latlng :: "RideStream \<Rightarrow> error + json" where
  "RideStream_latlng s = try_get_values s ''latlng''"

definition RideStream_moving :: "RideStream \<Rightarrow> error + json" where
  "RideStream_moving s = try_get_values s ''moving''"

definition RideStream_outlier :: "RideStream \<Rightarrow> error + json" where
  "RideStream_outlier s = try_get_values s ''outlier''"

definition RideStream_resting :: "RideStream \<Rightarrow> error + json" where
  "RideStream_resting s = try_get_values s ''resting''"

definition RideStream_temp :: "RideStream \<Rightarrow> error + json" where
  "RideStream_temp s = try_get_values s ''temp''"

definition RideStream_time :: "RideStream \<Rightarrow> error + json" where
  "RideStream_time s = try_get_values s ''time''"

definition RideStream_total_elevation :: "RideStream \<Rightarrow> error + json" where
  "RideStream_total_elevation s = try_get_values s ''total_elevation''"

definition RideStream_watts_calc :: "RideStream \<Rightarrow> error + json" where
  "RideStream_watts_calc s = try_get_values s ''watts_calc''"

definition RideStream_velocity_smooth :: "RideStream \<Rightarrow> error + json" where
  "RideStream_velocity_smooth s = try_get_values s ''velocity_smooth''"

definition RideStream_raw_data :: "RideStream \<Rightarrow> json" where
  "RideStream_raw_data s = stream_attr s"

section \<open>SegmentDetail and Segment\<close>

definition SegmentDetail_init ::
  "env \<Rightarrow> json \<Rightarrow> json \<Rightarrow> world \<Rightarrow> (error + ref) \<times> world" where
  "SegmentDetail_init E seg_id eff_id w =
     (case load E (''/efforts/'' @ format_s E eff_id) (Some ''effort'') w of
        (Inl e, w1) \<Rightarrow> (Inl e, w1)
      | (Inr ev, w1) \<Rightarrow>
          (case load E (''/segments/'' @ format_s E seg_id) (Some ''segment'') w1 of
             (Inl e, w2) \<Rightarrow> (Inl e, w2)
           | (Inr sv, w2) \<Rightarrow>
               (let (a, w3) = new (OSegmentDetail
                      \<lparr>sdetail_id = seg_id, effort_attr = ev, segment_attr = sv\<rparr>) w2
                in (Inr a, w3))))"

definition Segment_init :: "json \<Rightarrow> world \<Rightarrow> (error + ref) \<times> world" where
  "Segment_init attr w =
     (case subscript attr ''id'' of
        Inl e \<Rightarrow> (Inl e, w)
      | Inr i \<Rightarrow>
          (case subscript attr ''segment'' of
             Inl e \<Rightarrow> (Inl e, w)
           | Inr sg \<Rightarrow>
               (case subscript attr ''elapsed_time'' of
                  Inl e \<Rightarrow> (Inl e, w)
                | Inr t \<Rightarrow>
                    (let (a, w') = new (OSegment
                           \<lparr>segment_id = i, segment_segment = sg, segment_time = t,
                            segment_detail = None\<rparr>) w
                     in (Inr a, w')))))"

definition Segment_name :: "Segment \<Rightarrow> error + json" where
  "Segment_name s = subscript (segment_segment s) ''name''"

text \<open>An instance of \<^verbatim>\<open>SegmentDetail\<close> is true (the class defines neither
  \<^verbatim>\<open>__bool__\<close> nor \<^verbatim>\<open>__len__\<close>), so \<^verbatim>\<open>not self._detail\<close> holds exactly when the field
  is \<^verbatim>\<open>None\<close>; likewise for the fields of \<^verbatim>\<open>Ride\<close> below.\<close>

definition Segment_detail :: "env \<Rightarrow> ref \<Rightarrow> world \<Rightarrow> (error + ref) \<times> world" where
  "Segment_detail E a w =
     (case obj_at w a of
        Some (OSegment s) \<Rightarrow>
          (case segment_detail s of
             Some d \<Rightarrow> (Inr d, w)
           | None \<Rightarrow>
               (case subscript (segment_segment s) ''id'' of
                  Inl e \<Rightarrow> (Inl e, w)
                | Inr rid \<Rightarrow>
                    (case SegmentDetail_init E rid (segment_id s) w of
                       (Inl e, w') \<Rightarrow> (Inl e, w')
                     | (Inr d, w') \<Rightarrow>
                         (Inr d, put a (OSegment (s\<lparr>segment_detail := Some d\<rparr>)) w'))))
      | _ \<Rightarrow> (Inl NoInstance, w))"

section \<open>Ride\<close>

definition Ride_init :: "json \<Rightarrow> json \<Rightarrow> world \<Rightarrow> ref \<times> world" where
  "Ride_init oid name w =
     new (ORide \<lparr>ride_id = oid, ride_name = name, ride_detail = None,
                 ride_segments = [], ride_stream = None\<rparr>) w"

definition Ride_detail :: "env \<Rightarrow> ref \<Rightarrow> world \<Rightarrow> (error + ref) \<times> world" where
  "Ride_detail E a w =
     (case obj_at w a of
        Some (ORide r) \<Rightarrow>
          (case ride_detail r of
             Some d \<Rightarrow> (Inr d, w)
           | None \<Rightarrow>
               (case RideDetail_init E (ride_id r) w of
                  (Inl e, w') \<Rightarrow> (Inl e, w')
                | (Inr d, w') \<Rightarrow> (Inr d, put a (ORide (r\<lparr>ride_detail := Some d\<rparr>)) w')))
      | _ \<Rightarrow> (Inl NoInstance, w))"

definition Ride_stream :: "env \<Rightarrow> ref \<Rightarrow> world \<Rightarrow> (error + ref) \<times> world" where
  "Ride_stream E a w =
     (case obj_at w a of
        Some (ORide r) \<Rightarrow>
          (case ride_stream r of
             Some d \<Rightarrow> (Inr d, w)
           | None \<Rightarrow>
               (case RideStream_init E (ride_id r) w of
                  (Inl e, w') \<Rightarrow> (Inl e, w')
                | (Inr d, w') \<Rightarrow> (Inr d, put a (ORide (r\<lparr>ride_stream := Some d\<rparr>)) w')))
      | _ \<Rightarrow> (Inl NoInstance, w))"

text \<open>The loop of \<^verbatim>\<open>segments\<close>: each \<^verbatim>\<open>Segment\<close> is appended to the ride's own list
  as soon as it is built, so the segments built before a failing entry stay.\<close>

fun segments_loop :: "ref \<Rightarrow> json list \<Rightarrow> world \<Rightarrow> (error + unit) \<times> world" where
  "segments_loop a [] w = (Inr (), w)"
| "segments_loop a (effort # rest) w =
     (case Segment_init effort w of
        (Inl e, w') \<Rightarrow> (Inl e, w')
      | (Inr s, w') \<Rightarrow>
          (case obj_at w' a of
             Some (ORide r) \<Rightarrow>
               segments_loop a rest
                 (put a (ORide (r\<lparr>ride_segments := ride_segments r @ [s]\<rparr>)) w')
           | _ \<Rightarrow> (Inl NoInstance, w')))"

definition Ride_segments :: "env \<Rightarrow> ref \<Rightarrow> world \<Rightarrow> (error + ref list) \<times> world" where
  "Ride_segments E a w =
     (case obj_at w a of
        Some (ORide r) \<Rightarrow>
          (if ride_segments r = [] then
             (case load E (''/rides/'' @ format_s E (ride_id r) @ ''/efforts'')
                     (Some ''efforts'') w of
                (Inl e, w1) \<Rightarrow> (Inl e, w1)
              | (Inr v, w1) \<Rightarrow>
                  (case py_iter v of
                     Inl e \<Rightarrow> (Inl e, w1)
                   | Inr efforts \<Rightarrow>
                       (case segments_loop a efforts w1 of
                          (Inl e, w2) \<Rightarrow> (Inl e, w2)
                        | (Inr u, w2) \<Rightarrow>
                            (case obj_at w2 a of
                               Some (ORide r') \<Rightarrow> (Inr (ride_segments r'), w2)
                             | _ \<Rightarrow> (Inl NoInstance, w2)))))
           else (Inr (ride_segments r), w))
      | _ \<Rightarrow> (Inl NoInstance, w))"

section \<open>Athlete\<close>

definition Athlete_init :: "env \<Rightarrow> json \<Rightarrow> Athlete" where
  "Athlete_init E oid =
     \<lparr>athlete_id = oid, athlete_url = ''/rides?athleteId='' @ format_s E oid\<rparr>"

fun rides_loop :: "json list \<Rightarrow> ref list \<Rightarrow> world \<Rightarrow> (error + ref list) \<times> world" where
  "rides_loop [] out w = (Inr out, w)"
| "rides_loop (ride # rest) out w =
     (case subscript ride ''id'' of
        Inl e \<Rightarrow> (Inl e, w)
      | Inr i \<Rightarrow>
          (case subscript ride ''name'' of
             Inl e \<Rightarrow> (Inl e, w)
           | Inr n \<Rightarrow>
               (let (a, w') = Ride_init i n w in rides_loop rest (out @ [a]) w')))"

text \<open>\<open>start_date\<close> is \<^verbatim>\<open>None\<close> or a date, given by its ordinal; a date is true.\<close>

definition rides :: "env \<Rightarrow> Athlete \<Rightarrow> int option \<Rightarrow> world \<Rightarrow> (error + ref list) \<times> world" where
  "rides E self start_date w =
     (let url = (case start_date of
                   None \<Rightarrow> athlete_url self
                 | Some d \<Rightarrow> athlete_url self @ ''&startDate='' @ isoformat E d)
      in case load E url (Some ''rides'') w of
           (Inl e, w') \<Rightarrow> (Inl e, w')
         | (Inr v, w') \<Rightarrow>
             (case py_iter v of
                Inl e \<Rightarrow> (Inl e, w')
              | Inr entries \<Rightarrow> rides_loop entries [] w'))"

definition has_id :: "world \<Rightarrow> json \<Rightarrow> ref \<Rightarrow> bool" where
  "has_id w ride_id' a =
     (case obj_at w a of Some (ORide r) \<Rightarrow> py_eq (ride_id r) ride_id' | _ \<Rightarrow> False)"

definition ride :: "env \<Rightarrow> Athlete \<Rightarrow> json \<Rightarrow> world \<Rightarrow> (error + ref option) \<times> world" where
  "ride E self ride_id' w =
     (case rides E self None w of
        (Inl e, w') \<Rightarrow> (Inl e, w')
      | (Inr rs, w') \<Rightarrow> (Inr (find (has_id w' ride_id') rs), w'))"

section \<open>Athlete.ride_stats\<close>

text \<open>
  The accumulators of \<open>ride_stats\<close> are Python floats, \<^verbatim>\<open>defaultdict(float)\<close>, to which
  the numbers of the ride details are added with \<^verbatim>\<open>+=\<close>.
\<close>

text \<open>The conversion of an integer operand: the nearest double, and \<^verbatim>\<open>OverflowError\<close>
  when that would be \<open>2 ^ 1024\<close> or more in magnitude.\<close>

definition float_of_int :: "int \<Rightarrow> error + pyfloat" where
  "float_of_int n =
     (case round_double (of_int n) of Finite r \<Rightarrow> Inr (Finite r) | _ \<Rightarrow> Inl OverflowError)"

text \<open>The float that a decoded value stands for as the right operand of \<^verbatim>\<open>+\<close> on a
  float: a boolean counts as 0 or 1, anything but a number is a \<^verbatim>\<open>TypeError\<close>.\<close>

fun as_float :: "json \<Rightarrow> error + pyfloat" where
  "as_float (JNum n) = float_of_int n"
| "as_float (JReal q) = Inr (round_double q)"
| "as_float (JBool b) = Inr (Finite (if b then 1 else 0))"
| "as_float _ = Inl TypeError"

text \<open>\<^verbatim>\<open>x + v\<close> for a float \<open>x\<close> and a decoded value \<open>v\<close>.\<close>

definition float_plus :: "pyfloat \<Rightarrow> json \<Rightarrow> error + pyfloat" where
  "float_plus x v = (case as_float v of Inl e \<Rightarrow> Inl e | Inr y \<Rightarrow> Inr (float_add x y))"

text \<open>A \<^verbatim>\<open>defaultdict(float)\<close>: a key that is not there reads as \<^verbatim>\<open>0.0\<close>.\<close>

type_synonym stats = "string \<rightharpoonup> pyfloat"

definition stats_get :: "stats \<Rightarrow> string \<Rightarrow> pyfloat" where
  "stats_get st key = (case st key of None \<Rightarrow> Finite 0 | Some x \<Rightarrow> x)"

text \<open>\<^verbatim>\<open>stats[key] += v\<close>.\<close>

definition iadd :: "stats \<Rightarrow> string \<Rightarrow> json \<Rightarrow> error + stats" where
  "iadd st key v =
     (case float_plus (stats_get st key) v of
        Inl e \<Rightarrow> Inl e
      | Inr x \<Rightarrow> Inr (st(key \<mapsto> x)))"

text \<open>Reading an attribute of the \<open>RideDetail\<close> a reference denotes.\<close>

definition detail_at :: "world \<Rightarrow> ref \<Rightarrow> (RideDetail \<Rightarrow> error + json) \<Rightarrow> error + json" where
  "detail_at w d f = (case obj_at w d of Some (ORideDetail rd) \<Rightarrow> f rd | _ \<Rightarrow> Inl NoInstance)"

text \<open>The loop over the rides: \<^verbatim>\<open>ride.detail\<close> is read twice for each ride.\<close>

fun stats_loop :: "env \<Rightarrow> ref list \<Rightarrow> stats \<Rightarrow> world \<Rightarrow> (error + stats) \<times> world" where
  "stats_loop E [] st w = (Inr st, w)"
| "stats_loop E (a # rest) st w =
     (case iadd st ''rides'' (JNum 1) of
        Inl e \<Rightarrow> (Inl e, w)
      | Inr s1 \<Rightarrow>
     (case Ride_detail E a w of
        (Inl e, w1) \<Rightarrow> (Inl e, w1)
      | (Inr d, w1) \<Rightarrow>
     (case detail_at w1 d RideDetail_moving_time of
        Inl e \<Rightarrow> (Inl e, w1)
      | Inr m \<Rightarrow>
     (case iadd s1 ''moving_time'' m of
        Inl e \<Rightarrow> (Inl e, w1)
      | Inr s2 \<Rightarrow>
     (case Ride_detail E a w1 of
        (Inl e, w2) \<Rightarrow> (Inl e, w2)
      | (Inr d', w2) \<Rightarrow>
     (case detail_at w2 d' RideDetail_distance of
        Inl e \<Rightarrow> (Inl e, w2)
      | Inr x \<Rightarrow>
     (case iadd s2 ''distance'' x of
        Inl e \<Rightarrow> (Inl e, w2)
      | Inr s3 \<Rightarrow> stats_loop E rest s3 w2)))))))"

text \<open>\<^verbatim>\<open>date.today() - timedelta(days=days)\<close> on ordinals: a \<^verbatim>\<open>timedelta\<close> holds at
  most 999999999 days, and a date lies between the ordinals 1 and 3652059.\<close>

definition date_minus_days :: "int \<Rightarrow> int \<Rightarrow> error + int" where
  "date_minus_days t days =
     (if 999999999 < \<bar>days\<bar> then Inl OverflowError
      else if 1 \<le> t - days \<and> t - days \<le> 3652059 then Inr (t - days)
      else Inl OverflowError)"

definition ride_stats :: "env \<Rightarrow> Athlete \<Rightarrow> int \<Rightarrow> world \<Rightarrow> (error + stats) \<times> world" where
  "ride_stats E self days w =
     (case date_minus_days (today E) days of
        Inl e \<Rightarrow> (Inl e, w)
      | Inr start \<Rightarrow>
          (case rides E self (Some start) w of
             (Inl e, w') \<Rightarrow> (Inl e, w')
           | (Inr rs, w') \<Rightarrow> stats_loop E rs Map.empty w'))"

text \<open>\<^verbatim>\<open>ride_stats(days)[key]\<close>, as the example program reads the result.\<close>

definition stat :: "error + stats \<Rightarrow> string \<Rightarrow> error + pyfloat" where
  "stat res key = (case res of Inl e \<Rightarrow> Inl e | Inr st \<Rightarrow> Inr (stats_get st key))"

section \<open>A transport double\<close>

text \<open>
  The environment the examples run in. \<open>py_str\<close> is Python's \<^verbatim>\<open>%s\<close> on \<^verbatim>\<open>None\<close>, a
  boolean, an integer or a string; \<open>demo_isoformat\<close> agrees with \<^verbatim>\<open>date.isoformat\<close>
  on the one date the examples use, 2012-01-01, whose ordinal is 734503; today is a
  week later. The server
  knows athlete 7 with two rides of the same moving time, 60, and distance, 1234.5,
  athlete 9 with one ride whose moving time is \<open>2 ^ 53 + 1\<close>, the efforts
  of ride 2 and effort 11, but not segment 5; the listing of athlete 8 has an entry
  without a name, and the efforts of ride 3 an entry without an elapsed time.
  A second server, \<open>lap_urlopen\<close>, lists ten rides for athlete 10 and answers every
  other request with the same ride detail, of moving time 60 and distance 0.1.
\<close>

fun dec :: "nat \<Rightarrow> string" where
  "dec n = (if n < 10 then [''0123456789'' ! n]
            else dec (n div 10) @ [''0123456789'' ! (n mod 10)])"

fun py_str :: "json \<Rightarrow> string" where
  "py_str (JStr s) = s"
| "py_str (JNum n) = (if n < 0 then CHR ''-'' # dec (nat (- n)) else dec (nat n))"
| "py_str (JBool b) = (if b then ''True'' else ''False'')"
| "py_str JNull = ''None''"

definition demo_isoformat :: "int \<Rightarrow> string" where
  "demo_isoformat d = (if d = 734503 then ''2012-01-01'' else [])"

definition demo_listing :: json where
  "demo_listing = JObj [(''rides'', JList
     [JObj [(''id'', JNum 1), (''name'', JStr ''Loop'')],
      JObj [(''id'', JNum 2), (''name'', JStr ''Hill'')]])]"

definition demo_ride :: json where
  "demo_ride = JObj [(''ride'', JObj
     [(''athlete'', JObj [(''id'', JNum 7), (''name'', JStr ''Ann'')]),
      (''bike'', JObj [(''id'', JNum 4), (''name'', JStr ''Steel'')]),
      (''location'', JStr ''Oslo''),
      (''distance'', JReal (2469 / 2)),
      (''movingTime'', JNum 60)])]"

definition demo_efforts :: json where
  "demo_efforts = JObj [(''efforts'', JList
     [JObj [(''id'', JNum 11), (''elapsed_time'', JNum 30),
            (''segment'', JObj [(''id'', JNum 5), (''name'', JStr ''Climb'')])]])]"

definition demo_urlopen :: "string list \<Rightarrow> string \<Rightarrow> response" where
  "demo_urlopen lg url =
     (if url = ''http://www.strava.com/api/v1/rides?athleteId=7'' then Decoded demo_listing
      else if url = ''http://www.strava.com/api/v1/rides?athleteId=7&startDate=2012-01-01''
        then Decoded demo_listing
      else if url = ''http://www.strava.com/api/v1/rides/1'' then Decoded demo_ride
      else if url = ''http://www.strava.com/api/v1/rides/2'' then Decoded demo_ride
      else if url = ''http://www.strava.com/api/v1/rides/1/efforts''
        then Decoded (JObj [(''efforts'', JList [])])
      else if url = ''http://www.strava.com/api/v1/rides/2/efforts'' then Decoded demo_efforts
      else if url = ''http://www.strava.com/api/v1/efforts/11''
        then Decoded (JObj [(''effort'', JObj [(''elapsedTime'', JNum 30)])])
      else if url = ''http://www.strava.com/api/v1/rides?athleteId=8''
        then Decoded (JObj [(''rides'', JList [JObj [(''id'', JNum 3)]])])
      else if url = ''http://www.strava.com/api/v1/rides/3/efforts''
        then Decoded (JObj [(''efforts'', JList [JObj [(''id'', JNum 12),
               (''segment'', JObj [(''id'', JNum 5), (''name'', JStr ''Climb'')])]])])
      else if url = ''http://www.strava.com/api/v1/rides?athleteId=9&startDate=2012-01-01''
        then Decoded (JObj [(''rides'', JList
               [JObj [(''id'', JNum 4), (''name'', JStr ''Long'')]])])
      else if url = ''http://www.strava.com/api/v1/rides/4''
        then Decoded (JObj [(''ride'', JObj
               [(''distance'', JNum 5000), (''movingTime'', JNum 9007199254740993)])])
      else if url = ''http://www.strava.com/api/v1/rides/offline''
        then ConnectionFailed ''<urlopen error timed out>''
      else HTTPError ''HTTP Error 404: Not Found'')"

definition demo_env :: env where
  "demo_env = \<lparr>urlopen = demo_urlopen, format_s = py_str, isoformat = demo_isoformat,
                today = 734510\<rparr>"

definition lap_urlopen :: "string list \<Rightarrow> string \<Rightarrow> response" where
  "lap_urlopen lg url =
     (if url = ''http://www.strava.com/api/v1/rides?athleteId=10&startDate=2012-01-01''
        then Decoded (JObj [(''rides'', JList
               [JObj [(''id'', JNum 21), (''name'', JStr ''Lap'')],
                JObj [(''id'', JNum 22), (''name'', JStr ''Lap'')],
                JObj [(''id'', JNum 23), (''name'', JStr ''Lap'')],
                JObj [(''id'', JNum 24), (''name'', JStr ''Lap'')],
                JObj [(''id'', JNum 25), (''name'', JStr ''Lap'')],
                JObj [(''id'', JNum 26), (''name'', JStr ''Lap'')],
                JObj [(''id'', JNum 27), (''name'', JStr ''Lap'')],
                JObj [(''id'', JNum 28), (''name'', JStr ''Lap'')],
                JObj [(''id'', JNum 29), (''name'', JStr ''Lap'')],
                JObj [(''id'', JNum 30), (''name'', JStr ''Lap'')]])])
      else Decoded (JObj [(''ride'', JObj
             [(''distance'', JReal (1 / 10)), (''movingTime'', JNum 60)])]))"

definition lap_env :: env where
  "lap_env = \<lparr>urlopen = lap_urlopen, format_s = py_str, isoformat = demo_isoformat,
               today = 734510\<rparr>"

definition demo_world :: world where
  "demo_world = \<lparr>log = [], heap =
     [ORide \<lparr>ride_id = JNum 1, ride_name = JStr ''Loop'', ride_detail = None,
             ride_segments = [], ride_stream = None\<rparr>,
      OSegment \<lparr>segment_id = JNum 11,
                segment_segment = JObj [(''id'', JNum 5), (''name'', JStr ''Climb'')],
                segment_time = JNum 30, segment_detail = None\<rparr>]\<rparr>"

section \<open>Facts about the store and the loops\<close>

declare dec.simps [simp del]

declare bitlen.simps [simp del]

lemmas demo_defs = demo_env_def demo_urlopen_def demo_world_def demo_listing_def
  demo_ride_def demo_efforts_def demo_isoformat_def BASE_API_def

lemmas lap_defs = lap_env_def lap_urlopen_def demo_isoformat_def BASE_API_def

lemma load_snd: "snd (load E url key w) = w\<lparr>log := log w @ [BASE_API @ url]\<rparr>"
  by (simp add: load_def Let_def split: response.splits option.splits sum.splits error.splits)

lemma load_world:
  "load E url key w = (res, w') \<Longrightarrow> w' = w\<lparr>log := log w @ [BASE_API @ url]\<rparr>"
  using load_snd [of E url key w] by simp

lemma obj_at_log_update [simp]: "obj_at (w\<lparr>log := l\<rparr>) a = obj_at w a"
  by (simp add: obj_at_def)

lemma obj_at_Some_less: "obj_at w a = Some ob \<Longrightarrow> a < length (heap w)"
  by (simp add: obj_at_def split: if_splits)

lemma RideDetail_init_Inr:
  assumes "RideDetail_init E oid w = (Inr d, w')"
  shows "d = length (heap w) \<and> log w' = log w @ [BASE_API @ ''/rides/'' @ format_s E oid] \<and>
         (\<exists>v. heap w' = heap w @ [ORideDetail \<lparr>detail_id = oid, detail_attr = v\<rparr>])"
proof -
  obtain res w0 where l: "load E (''/rides/'' @ format_s E oid) (Some ''ride'') w = (res, w0)"
    by (cases "load E (''/rides/'' @ format_s E oid) (Some ''ride'') w")
  from load_world [OF l]
  have w0: "w0 = w\<lparr>log := log w @ [BASE_API @ ''/rides/'' @ format_s E oid]\<rparr>"
    by simp
  from assms l w0 show ?thesis
    by (cases res) (auto simp: RideDetail_init_def new_def)
qed

lemma Segment_init_cases:
  "(\<exists>e. Segment_init attr w = (Inl e, w)) \<or>
   (\<exists>sg. Segment_init attr w = (Inr (length (heap w)), w\<lparr>heap := heap w @ [OSegment sg]\<rparr>))"
  by (auto simp: Segment_init_def new_def split: sum.splits)

lemma segments_loop_log: "log (snd (segments_loop a es w)) = log w"
proof (induction es arbitrary: w)
  case Nil
  show ?case by simp
next
  case (Cons effort rest)
  from Segment_init_cases [of effort w] show ?case
  proof
    assume "\<exists>e. Segment_init effort w = (Inl e, w)"
    then show ?thesis by auto
  next
    assume "\<exists>sg. Segment_init effort w =
      (Inr (length (heap w)), w\<lparr>heap := heap w @ [OSegment sg]\<rparr>)"
    then obtain sg where
      "Segment_init effort w = (Inr (length (heap w)), w\<lparr>heap := heap w @ [OSegment sg]\<rparr>)" ..
    then show ?thesis
      using Cons.IH by (auto simp: put_def split: option.splits obj.splits)
  qed
qed

lemma segments_loop_logD: "segments_loop a es w = (res, w') \<Longrightarrow> log w' = log w"
  using segments_loop_log [of a es w] by simp

lemma contains_JObj: "contains (JObj kvs) key = Inr (map_of kvs key \<noteq> None)"
  by (simp add: map_of_eq_None_iff)

lemma rides_loop_ok:
  assumes "list_all2 (\<lambda>e p. subscript e ''id'' = Inr (fst p) \<and>
                             subscript e ''name'' = Inr (snd p)) entries ins"
  shows "rides_loop entries out w =
     (Inr (out @ [length (heap w) ..< length (heap w) + length ins]),
      w\<lparr>heap := heap w @ map (\<lambda>p. ORide \<lparr>ride_id = fst p, ride_name = snd p,
             ride_detail = None, ride_segments = [], ride_stream = None\<rparr>) ins\<rparr>)"
  using assms
proof (induction entries arbitrary: ins out w)
  case Nil
  then show ?case by simp
next
  case (Cons e es)
  then obtain p ps where ins: "ins = p # ps"
    and p: "subscript e ''id'' = Inr (fst p)" "subscript e ''name'' = Inr (snd p)"
    and ps: "list_all2 (\<lambda>e p. subscript e ''id'' = Inr (fst p) \<and>
                             subscript e ''name'' = Inr (snd p)) es ps"
    by (auto simp: list_all2_Cons1)
  have upt: "[length (heap w) ..< length (heap w) + length (p # ps)] =
      length (heap w) # [Suc (length (heap w)) ..< Suc (length (heap w)) + length ps]"
    by (simp add: upt_rec)
  show ?case
    unfolding ins upt
    using p Cons.IH [OF ps] by (simp add: Ride_init_def new_def)
qed

lemma rides_loop_bad:
  assumes "\<forall>e \<in> set entries. \<exists>evs. e = JObj evs"
    and "\<exists>evs. JObj evs \<in> set entries \<and> (map_of evs ''id'' = None \<or> map_of evs ''name'' = None)"
  shows "\<exists>k w'. rides_loop entries out w = (Inl (KeyError k), w') \<and>
           (k = ''id'' \<or> k = ''name'') \<and> log w' = log w"
  using assms
proof (induction entries arbitrary: out w)
  case Nil
  then show ?case by simp
next
  case (Cons e es)
  then obtain evs where e: "e = JObj evs" by auto
  show ?case
  proof (cases "map_of evs ''id'' = None \<or> map_of evs ''name'' = None")
    case True
    then show ?thesis using e by (auto split: option.splits)
  next
    case False
    then obtain i n where good: "map_of evs ''id'' = Some i" "map_of evs ''name'' = Some n"
      by auto
    from Cons.prems False e
    have rest: "\<exists>evs. JObj evs \<in> set es \<and> (map_of evs ''id'' = None \<or> map_of evs ''name'' = None)"
      by auto
    from Cons.prems have all: "\<forall>e \<in> set es. \<exists>evs. e = JObj evs" by simp
    obtain a w1 where ri: "Ride_init i n w = (a, w1)" by (cases "Ride_init i n w")
    then have lg: "log w1 = log w" by (auto simp: Ride_init_def new_def)
    from Cons.IH [OF all rest, of "out @ [a]" w1] lg
    show ?thesis using e good ri by simp
  qed
qed

lemma segments_loop_bad:
  assumes "\<exists>r. obj_at w a = Some (ORide r)"
    and "\<forall>e \<in> set efforts. \<exists>evs. e = JObj evs"
    and "\<exists>evs. JObj evs \<in> set efforts \<and>
           (map_of evs ''id'' = None \<or> map_of evs ''segment'' = None \<or>
            map_of evs ''elapsed_time'' = None)"
  shows "\<exists>k w'. segments_loop a efforts w = (Inl (KeyError k), w') \<and>
           (k = ''id'' \<or> k = ''segment'' \<or> k = ''elapsed_time'') \<and> log w' = log w"
  using assms
proof (induction efforts arbitrary: w)
  case Nil
  then show ?case by simp
next
  case (Cons e es)
  then obtain evs where e: "e = JObj evs" by auto
  from Cons.prems(1) obtain r where r: "obj_at w a = Some (ORide r)" by blast
  show ?case
  proof (cases "map_of evs ''id'' = None \<or> map_of evs ''segment'' = None \<or>
            map_of evs ''elapsed_time'' = None")
    case True
    then show ?thesis using e by (auto simp: Segment_init_def split: option.splits)
  next
    case False
    then obtain i sg t where good: "map_of evs ''id'' = Some i"
      "map_of evs ''segment'' = Some sg" "map_of evs ''elapsed_time'' = Some t"
      by auto
    from Cons.prems False e
    have rest: "\<exists>evs. JObj evs \<in> set es \<and>
           (map_of evs ''id'' = None \<or> map_of evs ''segment'' = None \<or>
            map_of evs ''elapsed_time'' = None)"
      by auto
    from Cons.prems have all: "\<forall>e \<in> set es. \<exists>evs. e = JObj evs" by simp
    define w1 where "w1 = w\<lparr>heap := heap w @ [OSegment \<lparr>segment_id = i, segment_segment = sg,
        segment_time = t, segment_detail = None\<rparr>]\<rparr>"
    have si: "Segment_init e w = (Inr (length (heap w)), w1)"
      using e good by (simp add: Segment_init_def new_def w1_def)
    have a: "a < length (heap w)" using r by (rule obj_at_Some_less)
    have r1: "obj_at w1 a = Some (ORide r)"
      using r a by (simp add: obj_at_def w1_def nth_append)
    define w2 where
      "w2 = put a (ORide (r\<lparr>ride_segments := ride_segments r @ [length (heap w)]\<rparr>)) w1"
    have r2: "\<exists>r'. obj_at w2 a = Some (ORide r')"
      using a by (simp add: w2_def w1_def obj_at_def put_def)
    have lg: "log w2 = log w" by (simp add: w2_def w1_def put_def)
    from Cons.IH [OF r2 all rest] lg
    show ?thesis using si r1 by (simp add: w2_def)
  qed
qed

lemma segments_loop_ok:
  assumes "list_all2 (\<lambda>e s. subscript e ''id'' = Inr (segment_id s) \<and>
                             subscript e ''segment'' = Inr (segment_segment s) \<and>
                             subscript e ''elapsed_time'' = Inr (segment_time s) \<and>
                             segment_detail s = None) efforts segs"
    and "obj_at w a = Some (ORide r)"
  shows "segments_loop a efforts w =
     (Inr (), w\<lparr>heap := (heap w @ map OSegment segs)
        [a := ORide (r\<lparr>ride_segments := ride_segments r @
                 [length (heap w) ..< length (heap w) + length segs]\<rparr>)]\<rparr>)"
  using assms
proof (induction efforts arbitrary: segs w r)
  case Nil
  then have "heap w ! a = ORide r" and "a < length (heap w)"
    by (simp_all add: obj_at_def split: if_splits)
  then have "(heap w)[a := ORide r] = heap w" by (metis list_update_id)
  with Nil show ?case by simp
next
  case (Cons e es)
  let ?n = "length (heap w)"
  from Cons.prems(1) obtain s ss where segs: "segs = s # ss"
    and s: "subscript e ''id'' = Inr (segment_id s)"
      "subscript e ''segment'' = Inr (segment_segment s)"
      "subscript e ''elapsed_time'' = Inr (segment_time s)" "segment_detail s = None"
    and ss: "list_all2 (\<lambda>e s. subscript e ''id'' = Inr (segment_id s) \<and>
                             subscript e ''segment'' = Inr (segment_segment s) \<and>
                             subscript e ''elapsed_time'' = Inr (segment_time s) \<and>
                             segment_detail s = None) es ss"
    by (auto simp: list_all2_Cons1)
  have rec: "\<lparr>segment_id = segment_id s, segment_segment = segment_segment s,
      segment_time = segment_time s, segment_detail = None\<rparr> = s"
    using s(4) by (cases s) simp
  define w1 where "w1 = w\<lparr>heap := heap w @ [OSegment s]\<rparr>"
  have si: "Segment_init e w = (Inr ?n, w1)"
    using s(1-3) rec by (simp add: Segment_init_def new_def w1_def)
  have a: "a < ?n" using Cons.prems(2) by (rule obj_at_Some_less)
  have r1: "obj_at w1 a = Some (ORide r)"
    using Cons.prems(2) a by (simp add: obj_at_def w1_def nth_append)
  define r' where "r' = r\<lparr>ride_segments := ride_segments r @ [?n]\<rparr>"
  define w2 where "w2 = put a (ORide r') w1"
  have r2: "obj_at w2 a = Some (ORide r')"
    using a by (simp add: w2_def w1_def obj_at_def put_def)
  have h2: "heap w2 = (heap w)[a := ORide r'] @ [OSegment s]"
    using a by (simp add: w2_def w1_def put_def list_update_append1)
  have step: "segments_loop a (e # es) w = segments_loop a es w2"
    using si r1 by (simp add: w2_def r'_def)
  have upt: "[?n ..< ?n + length (s # ss)] = ?n # [Suc ?n ..< Suc ?n + length ss]"
    by (simp add: upt_rec)
  have heaps: "(heap w2 @ map OSegment ss)
        [a := ORide (r'\<lparr>ride_segments := ride_segments r' @
                 [length (heap w2) ..< length (heap w2) + length ss]\<rparr>)] =
      (heap w @ map OSegment (s # ss))
        [a := ORide (r\<lparr>ride_segments := ride_segments r @
                 (?n # [Suc ?n ..< Suc ?n + length ss])\<rparr>)]"
    using a by (simp add: h2 r'_def list_update_append1)
  have w2w: "w2\<lparr>heap := H\<rparr> = w\<lparr>heap := H\<rparr>" for H
    by (simp add: w2_def w1_def put_def)
  show ?case
    unfolding step segs upt Cons.IH [OF ss r2] heaps w2w ..
qed

lemma stats_get_upd:
  "stats_get (st(k \<mapsto> x)) k' = (if k' = k then x else stats_get st k')"
  by (simp add: stats_get_def)

lemma Ride_detail_fresh:
  assumes "obj_at w a = Some (ORide r)" and "ride_detail r = None"
    and "urlopen E (log w) (BASE_API @ ''/rides/'' @ format_s E (ride_id r)) = Decoded (JObj dvs)"
    and "map_of dvs ''ride'' = Some v"
  shows "Ride_detail E a w =
     (Inr (length (heap w)),
      w\<lparr>log := log w @ [BASE_API @ ''/rides/'' @ format_s E (ride_id r)],
        heap := (heap w @ [ORideDetail \<lparr>detail_id = ride_id r, detail_attr = v\<rparr>])
                  [a := ORide (r\<lparr>ride_detail := Some (length (heap w))\<rparr>)]\<rparr>)"
  using assms
  by (simp add: Ride_detail_def RideDetail_init_def load_def new_def put_def)

lemma floor_fraction: "\<lfloor>numeral a / numeral b :: rat\<rfloor> = numeral a div numeral b"
  by (metis floor_divide_of_int_eq of_int_numeral)

lemma ceiling_fraction: "\<lceil>numeral a / numeral b :: rat\<rceil> = - ((- numeral a) div numeral b)"
  by (metis ceiling_divide_eq_div of_int_numeral)

lemma floor_unit_fraction: "\<lfloor>1 / numeral b :: rat\<rfloor> = 1 div numeral b"
  by (metis floor_divide_of_int_eq of_int_numeral of_int_1)

lemma ceiling_unit_fraction: "\<lceil>1 / numeral b :: rat\<rceil> = - ((- 1) div numeral b)"
  by (metis ceiling_divide_eq_div of_int_numeral of_int_1)

lemmas eval_double = round_double_def round_half_even_def ilog2_def pow2_def Let_def
  floor_fraction ceiling_fraction floor_unit_fraction ceiling_unit_fraction bitlen.simps

lemma as_float_one: "as_float (JNum 1) = Inr (Finite 1)"
  by (simp add: float_of_int_def eval_double)

lemma iadd_ok:
  "as_float v = Inr y \<Longrightarrow> iadd st key v = Inr (st(key \<mapsto> float_add (stats_get st key) y))"
  by (simp add: iadd_def float_plus_def)

lemma funpow_float_add:
  "((\<lambda>s. float_add s c) ^^ n) (float_add a c) =
   float_add (((\<lambda>s. float_add s c) ^^ n) a) c"
  using funpow_swap1 [of "\<lambda>s. float_add s c" n a] by simp

lemma funpow_exact:
  assumes "\<forall>j. 1 \<le> j \<and> j \<le> K \<longrightarrow> round_double (of_nat j * m) = Finite (of_nat j * m)"
  shows "((\<lambda>s. float_add s (Finite m)) ^^ K) (Finite 0) = Finite (of_nat K * m)"
  using assms
proof (induction K)
  case 0
  show ?case by simp
next
  case (Suc K)
  have prev: "((\<lambda>s. float_add s (Finite m)) ^^ K) (Finite 0) = Finite (of_nat K * m)"
    using Suc by simp
  have "of_nat K * m + m = of_nat (Suc K) * m" by (simp add: algebra_simps)
  moreover have "round_double (of_nat (Suc K) * m) = Finite (of_nat (Suc K) * m)"
    using Suc.prems by (metis le_refl le_add1 plus_1_eq_Suc)
  ultimately show ?case using prev by simp
qed

lemma stats_loop_ok:
  assumes "\<forall>j < length ps. obj_at w (m + j) =
             Some (ORide \<lparr>ride_id = fst (ps ! j), ride_name = snd (ps ! j),
                ride_detail = None, ride_segments = [], ride_stream = None\<rparr>)"
    and "\<forall>p \<in> set ps. \<forall>lg. \<exists>dvs attr.
           urlopen E lg (BASE_API @ ''/rides/'' @ format_s E (fst p)) = Decoded (JObj dvs) \<and>
           map_of dvs ''ride'' = Some (JObj attr) \<and>
           map_of attr ''movingTime'' = Some mv \<and>
           map_of attr ''distance'' = Some dv"
    and "as_float mv = Inr x"
    and "as_float dv = Inr y"
  shows "\<exists>st' w'. stats_loop E [m ..< m + length ps] st w = (Inr st', w') \<and>
           stats_get st' ''rides'' =
             ((\<lambda>s. float_add s (Finite 1)) ^^ length ps) (stats_get st ''rides'') \<and>
           stats_get st' ''moving_time'' =
             ((\<lambda>s. float_add s x) ^^ length ps) (stats_get st ''moving_time'') \<and>
           stats_get st' ''distance'' =
             ((\<lambda>s. float_add s y) ^^ length ps) (stats_get st ''distance'') \<and>
           log w' = log w @ map (\<lambda>p. BASE_API @ ''/rides/'' @ format_s E (fst p)) ps"
  using assms(1,2)
proof (induction ps arbitrary: m w st)
  case Nil
  then show ?case by simp
next
  case (Cons p ps)
  let ?r = "\<lparr>ride_id = fst p, ride_name = snd p,
                ride_detail = None, ride_segments = [], ride_stream = None\<rparr>"
  let ?url = "BASE_API @ ''/rides/'' @ format_s E (fst p)"
  let ?d = "length (heap w)"
  from Cons.prems(1) have am: "obj_at w m = Some (ORide ?r)" by force
  then have m: "m < ?d" by (rule obj_at_Some_less)
  from Cons.prems(2) obtain dvs attr where
    uo: "urlopen E (log w) ?url = Decoded (JObj dvs)" and
    dv: "map_of dvs ''ride'' = Some (JObj attr)" and
    mt: "map_of attr ''movingTime'' = Some mv" and
    ds: "map_of attr ''distance'' = Some dv"
    by (metis list.set_intros(1))
  define w1 where "w1 = w\<lparr>log := log w @ [?url],
        heap := (heap w @ [ORideDetail \<lparr>detail_id = fst p, detail_attr = JObj attr\<rparr>])
                  [m := ORide (?r\<lparr>ride_detail := Some ?d\<rparr>)]\<rparr>"
  have rd1: "Ride_detail E m w = (Inr ?d, w1)"
    using Ride_detail_fresh [OF am _ _ dv, of E] uo by (simp add: w1_def)
  have atd: "obj_at w1 ?d = Some (ORideDetail \<lparr>detail_id = fst p, detail_attr = JObj attr\<rparr>)"
    using m by (simp add: obj_at_def w1_def)
  have atm: "obj_at w1 m = Some (ORide (?r\<lparr>ride_detail := Some ?d\<rparr>))"
    using m by (simp add: obj_at_def w1_def)
  have rd2: "Ride_detail E m w1 = (Inr ?d, w1)"
    using atm by (simp add: Ride_detail_def)
  have gm: "detail_at w1 ?d RideDetail_moving_time = Inr mv"
    using atd mt by (simp add: detail_at_def RideDetail_moving_time_def)
  have gd: "detail_at w1 ?d RideDetail_distance = Inr dv"
    using atd ds by (simp add: detail_at_def RideDetail_distance_def)
  \<comment> \<open>the three additions\<close>
  define s1 where "s1 = st(''rides'' \<mapsto> float_add (stats_get st ''rides'') (Finite 1))"
  define s2 where
    "s2 = s1(''moving_time'' \<mapsto> float_add (stats_get st ''moving_time'') x)"
  define s3 where "s3 = s2(''distance'' \<mapsto> float_add (stats_get st ''distance'') y)"
  have i1: "iadd st ''rides'' (JNum 1) = Inr s1"
    using iadd_ok [OF as_float_one] by (simp add: s1_def)
  have g2: "stats_get s1 ''moving_time'' = stats_get st ''moving_time''"
    by (simp add: s1_def stats_get_upd)
  have i2: "iadd s1 ''moving_time'' mv = Inr s2"
    using iadd_ok [OF assms(3), of s1 "''moving_time''"] g2 by (simp add: s2_def)
  have g3: "stats_get s2 ''distance'' = stats_get st ''distance''"
    by (simp add: s1_def s2_def stats_get_upd)
  have i3: "iadd s2 ''distance'' dv = Inr s3"
    using iadd_ok [OF assms(4), of s2 "''distance''"] g3 by (simp add: s3_def)
  have step: "stats_loop E (m # [Suc m ..< Suc m + length ps]) st w =
      stats_loop E [Suc m ..< Suc m + length ps] s3 w1"
    using i1 rd1 gm i2 rd2 gd i3 by simp
  \<comment> \<open>the remaining rides\<close>
  have a1: "\<forall>j < length ps. obj_at w1 (Suc m + j) =
             Some (ORide \<lparr>ride_id = fst (ps ! j), ride_name = snd (ps ! j),
                ride_detail = None, ride_segments = [], ride_stream = None\<rparr>)"
  proof (intro allI impI)
    fix j assume j: "j < length ps"
    with Cons.prems(1) have "obj_at w (m + Suc j) =
        Some (ORide \<lparr>ride_id = fst ((p # ps) ! Suc j), ride_name = snd ((p # ps) ! Suc j),
                ride_detail = None, ride_segments = [], ride_stream = None\<rparr>)"
      by (metis length_Cons Suc_less_eq)
    then show "obj_at w1 (Suc m + j) =
             Some (ORide \<lparr>ride_id = fst (ps ! j), ride_name = snd (ps ! j),
                ride_detail = None, ride_segments = [], ride_stream = None\<rparr>)"
      by (simp add: obj_at_def w1_def nth_append split: if_splits)
  qed
  have a2: "\<forall>p \<in> set ps. \<forall>lg. \<exists>dvs attr.
           urlopen E lg (BASE_API @ ''/rides/'' @ format_s E (fst p)) = Decoded (JObj dvs) \<and>
           map_of dvs ''ride'' = Some (JObj attr) \<and>
           map_of attr ''movingTime'' = Some mv \<and>
           map_of attr ''distance'' = Some dv"
    using Cons.prems(2) by simp
  have b1: "stats_get s3 ''rides'' = float_add (stats_get st ''rides'') (Finite 1)"
    by (simp add: s1_def s2_def s3_def stats_get_upd)
  have b2: "stats_get s3 ''moving_time'' = float_add (stats_get st ''moving_time'') x"
    by (simp add: s1_def s2_def s3_def stats_get_upd)
  have b3: "stats_get s3 ''distance'' = float_add (stats_get st ''distance'') y"
    by (simp add: s1_def s2_def s3_def stats_get_upd)
  from Cons.IH [OF a1 a2, of s3] obtain st' w' where
    r: "stats_loop E [Suc m ..< Suc m + length ps] s3 w1 = (Inr st', w')" and
    r1: "stats_get st' ''rides'' =
      ((\<lambda>s. float_add s (Finite 1)) ^^ length ps) (stats_get s3 ''rides'')" and
    r2: "stats_get st' ''moving_time'' =
      ((\<lambda>s. float_add s x) ^^ length ps) (stats_get s3 ''moving_time'')" and
    r3: "stats_get st' ''distance'' =
      ((\<lambda>s. float_add s y) ^^ length ps) (stats_get s3 ''distance'')" and
    r4: "log w' = log w1 @ map (\<lambda>p. BASE_API @ ''/rides/'' @ format_s E (fst p)) ps"
    by blast
  have upt: "[m ..< m + length (p # ps)] = m # [Suc m ..< Suc m + length ps]"
    by (simp add: upt_rec)
  have lw1: "log w1 = log w @ [?url]" by (simp add: w1_def)
  show ?case
    unfolding upt step
    using r r1 r2 r3 r4 lw1 b1 b2 b3 by (simp add: funpow_float_add)
qed

lemma round_half_even_int: "round_half_even (of_int z) = z"
  by (simp add: round_half_even_def)

lemma pow2_low: "b \<le> 53 \<Longrightarrow> pow2 (int b - 53) = 1 / 2 ^ (53 - b)"
proof (cases "b = 53")
  case True
  then show ?thesis by (simp add: pow2_def)
next
  case False
  assume "b \<le> 53"
  with False have lt: "b < 53" by simp
  then have n: "nat (53 - int b) = 53 - b" by simp
  from lt have "\<not> 0 \<le> int b - 53" by simp
  then show ?thesis using n by (simp add: pow2_def)
qed

lemma scaled_low:
  assumes "b \<le> 53"
  shows "of_int (round_half_even (of_int m / pow2 (int b - 53))) * pow2 (int b - 53) = of_int m"
proof -
  have "of_int m / pow2 (int b - 53) = (of_int (m * 2 ^ (53 - b)) :: rat)"
    by (simp add: pow2_low [OF assms])
  then have "round_half_even (of_int m / pow2 (int b - 53)) = m * 2 ^ (53 - b)"
    by (simp only: round_half_even_int)
  then show ?thesis by (simp add: pow2_low [OF assms])
qed

lemma scaled_top:
  "of_int (round_half_even (2 ^ 53 / pow2 (int 54 - 53))) * pow2 (int 54 - 53) = 2 ^ 53"
proof -
  have p: "pow2 (int 54 - 53) = 2" by (simp add: pow2_def)
  have "(2::rat) ^ 53 / 2 = of_int (2 ^ 52)" by simp
  then have "round_half_even (2 ^ 53 / 2) = 2 ^ 52" by (simp only: round_half_even_int)
  then show ?thesis unfolding p by simp
qed

lemma bitlen_bounds: "0 < n \<Longrightarrow> 2 ^ (bitlen n - 1) \<le> n \<and> n < 2 ^ bitlen n"
proof (induction n rule: bitlen.induct)
  case (1 n)
  show ?case
  proof (cases "n div 2 = 0")
    case True
    with 1 have "n = 1" by auto
    then show ?thesis by (simp add: bitlen.simps)
  next
    case False
    then have pos: "0 < n div 2" by simp
    from 1 have n0: "n \<noteq> 0" by simp
    from "1.IH" [OF n0 pos]
    have lo: "2 ^ (bitlen (n div 2) - 1) \<le> n div 2" and hi: "n div 2 < 2 ^ bitlen (n div 2)"
      by simp_all
    have b: "bitlen n = Suc (bitlen (n div 2))" using n0 by (simp add: bitlen.simps)
    have bp: "0 < bitlen (n div 2)" using pos by (simp add: bitlen.simps)
    then have e: "(2::nat) ^ bitlen (n div 2) = 2 * 2 ^ (bitlen (n div 2) - 1)"
      by (cases "bitlen (n div 2)") simp_all
    have "2 ^ (bitlen n - 1) \<le> 2 * (n div 2)" using lo e b by simp
    also have "\<dots> \<le> n" by simp
    finally have A: "2 ^ (bitlen n - 1) \<le> n" .
    have "n < 2 * (n div 2) + 2" by presburger
    also have "\<dots> \<le> 2 * 2 ^ bitlen (n div 2)" using hi by simp
    finally have B: "n < 2 ^ bitlen n" using b by simp
    show ?thesis using A B by simp
  qed
qed

lemma bitlen_le_54:
  assumes "0 < N" and "N \<le> 2 ^ 53"
  shows "0 < bitlen N \<and> bitlen N \<le> 54 \<and> (bitlen N = 54 \<longrightarrow> N = 2 ^ 53)"
proof -
  from bitlen_bounds [OF assms(1)] have lo: "2 ^ (bitlen N - 1) \<le> N" and hi: "N < 2 ^ bitlen N"
    by simp_all
  have bpos: "0 < bitlen N" using assms(1) by (simp add: bitlen.simps)
  from lo assms(2) have le: "(2::nat) ^ (bitlen N - 1) \<le> 2 ^ 53" by (rule order_trans)
  have "bitlen N - 1 \<le> 53" by (rule power_le_imp_le_exp [OF _ le]) simp
  then have b54: "bitlen N \<le> 54" by simp
  have "N = 2 ^ 53" if "bitlen N = 54"
  proof -
    have "bitlen N - 1 = 53" using that by simp
    then have "2 ^ 53 \<le> N" using lo by (simp only:)
    with assms(2) show ?thesis by (rule_tac order_antisym)
  qed
  then show ?thesis using bpos b54 by blast
qed

lemma ilog2_int:
  assumes "n \<noteq> 0"
  shows "ilog2 \<bar>of_int n\<bar> = int (bitlen (nat \<bar>n\<bar>)) - 1"
proof -
  have e: "\<bar>of_int n :: rat\<bar> = of_int \<bar>n\<bar>" by simp
  have "(1::int) \<le> \<bar>n\<bar>" using assms by simp
  then have a1: "(1::rat) \<le> of_int \<bar>n\<bar>" by (simp only: of_int_1_le_iff)
  show ?thesis unfolding e ilog2_def using a1 by (simp only: if_True floor_of_int)
qed

lemma scaled_int:
  assumes "n \<noteq> 0" and "\<bar>n\<bar> \<le> 2 ^ 53"
  shows "of_int (round_half_even (of_int \<bar>n\<bar> / pow2 (int (bitlen (nat \<bar>n\<bar>)) - 53))) *
           pow2 (int (bitlen (nat \<bar>n\<bar>)) - 53) = (of_int \<bar>n\<bar> :: rat)"
proof -
  define N where "N = nat \<bar>n\<bar>"
  have Npos: "0 < N" using assms(1) by (simp add: N_def)
  have "int N \<le> int (2 ^ 53)" using assms(2) by (simp add: N_def)
  then have Nle: "N \<le> 2 ^ 53" by (simp only: of_nat_le_iff)
  from bitlen_le_54 [OF Npos Nle]
  have b54: "bitlen N \<le> 54" and top: "bitlen N = 54 \<longrightarrow> N = 2 ^ 53" by blast+
  show ?thesis
  proof (cases "bitlen N \<le> 53")
    case True
    then show ?thesis unfolding N_def by (rule scaled_low)
  next
    case False
    then have b: "bitlen N = 54" using b54 by simp
    with top have "N = 2 ^ 53" by blast
    then have "int N = 2 ^ 53" by simp
    then have n: "\<bar>n\<bar> = 2 ^ 53" by (simp add: N_def)
    have r: "(of_int \<bar>n\<bar> :: rat) = 2 ^ 53" unfolding n by simp
    show ?thesis unfolding r b [unfolded N_def] by (rule scaled_top)
  qed
qed

lemma round_double_int:
  assumes "\<bar>n\<bar> \<le> 2 ^ 53"
  shows "round_double (of_int n) = Finite (of_int n)"
proof (cases "n = 0")
  case True
  then show ?thesis by (simp add: round_double_def)
next
  case False
  have ab: "\<bar>of_int n :: rat\<bar> = of_int \<bar>n\<bar>" by simp
  have lb: "- 1074 \<le> int (bitlen (nat \<bar>n\<bar>)) - 1 - 52" by simp
  have e: "max (ilog2 \<bar>of_int n\<bar> - 52) (- 1074) = int (bitlen (nat \<bar>n\<bar>)) - 53"
    unfolding ilog2_int [OF False] using lb by (simp only: max_def) simp
  have v: "of_int (round_half_even (\<bar>of_int n\<bar> / pow2 (int (bitlen (nat \<bar>n\<bar>)) - 53))) *
           pow2 (int (bitlen (nat \<bar>n\<bar>)) - 53) = (\<bar>of_int n\<bar> :: rat)"
    unfolding ab by (rule scaled_int [OF False assms])
  have "(of_int \<bar>n\<bar> :: rat) \<le> of_int (2 ^ 53)" using assms by (simp only: of_int_le_iff)
  then have le: "\<bar>of_int n :: rat\<bar> \<le> 2 ^ 53" unfolding ab by simp
  have lt: "(2::rat) ^ 53 < 2 ^ 1024" by (rule power_strict_increasing) simp_all
  have small: "\<not> (2::rat) ^ 1024 \<le> \<bar>of_int n\<bar>" using le lt by linarith
  have x0: "(of_int n :: rat) \<noteq> 0" using False by simp
  have sg: "sgn (of_int n :: rat) * \<bar>of_int n\<bar> = of_int n" by (rule sgn_mult_abs)
  show ?thesis
    unfolding round_double_def Let_def e v
    using x0 small sg by (simp only: if_False)
qed

lemma as_float_int:
  assumes "\<bar>n\<bar> \<le> 2 ^ 53"
  shows "as_float (JNum n) = Inr (Finite (of_int n))"
  using round_double_int [OF assms] by (simp add: float_of_int_def)

lemma float_sum_int:
  assumes "as_float (JNum M) = Inr x" and "int K * \<bar>M\<bar> \<le> 2 ^ 53"
  shows "((\<lambda>s. float_add s x) ^^ K) (Finite 0) = Finite (of_int (int K * M))"
proof (cases "K = 0")
  case True
  then show ?thesis by simp
next
  case False
  have part: "\<bar>int j * M\<bar> \<le> 2 ^ 53" if "j \<le> K" for j
  proof -
    have "\<bar>int j * M\<bar> = int j * \<bar>M\<bar>" by (simp add: abs_mult)
    also have "\<dots> \<le> int K * \<bar>M\<bar>" using that by (intro mult_right_mono) simp_all
    also have "\<dots> \<le> 2 ^ 53" by (rule assms(2))
    finally show ?thesis .
  qed
  from False have "1 \<le> K" by simp
  from part [OF this] have "\<bar>M\<bar> \<le> 2 ^ 53" by simp
  from as_float_int [OF this] assms(1) have x: "x = Finite (of_int M)" by simp
  have "\<forall>j. 1 \<le> j \<and> j \<le> K \<longrightarrow>
      round_double (of_nat j * of_int M) = Finite (of_nat j * of_int M)"
  proof (intro allI impI)
    fix j assume "1 \<le> j \<and> j \<le> K"
    then have "\<bar>int j * M\<bar> \<le> 2 ^ 53" using part by blast
    from round_double_int [OF this]
    show "round_double (of_nat j * of_int M) = Finite (of_nat j * of_int M)" by simp
  qed
  from funpow_exact [OF this] show ?thesis unfolding x by simp
qed

lemma float_sum_ones:
  assumes "int K \<le> 2 ^ 53"
  shows "((\<lambda>s. float_add s (Finite 1)) ^^ K) (Finite 0) = Finite (of_nat K)"
proof -
  have "int K * \<bar>1\<bar> \<le> 2 ^ 53" using assms by simp
  from float_sum_int [OF as_float_one this] show ?thesis by simp
qed

lemma ride_stats_float_sums:
  assumes "date_minus_days (today E) days = Inr start"
    and "url = athlete_url self @ ''&startDate='' @ isoformat E start"
    and "urlopen E (log w) (BASE_API @ url) = Decoded (JObj kvs)"
    and "map_of kvs ''rides'' = Some (JList entries)"
    and "list_all2 (\<lambda>e p. subscript e ''id'' = Inr (fst p) \<and>
                          subscript e ''name'' = Inr (snd p)) entries ins"
    and "\<forall>p \<in> set ins. \<forall>lg. \<exists>dvs attr.
           urlopen E lg (BASE_API @ ''/rides/'' @ format_s E (fst p)) = Decoded (JObj dvs) \<and>
           map_of dvs ''ride'' = Some (JObj attr) \<and>
           map_of attr ''movingTime'' = Some mv \<and>
           map_of attr ''distance'' = Some dv"
    and "as_float mv = Inr x"
    and "as_float dv = Inr y"
  shows "stat (fst (ride_stats E self days w)) ''rides'' =
           Inr (((\<lambda>s. float_add s (Finite 1)) ^^ length ins) (Finite 0)) \<and>
         stat (fst (ride_stats E self days w)) ''moving_time'' =
           Inr (((\<lambda>s. float_add s x) ^^ length ins) (Finite 0)) \<and>
         stat (fst (ride_stats E self days w)) ''distance'' =
           Inr (((\<lambda>s. float_add s y) ^^ length ins) (Finite 0)) \<and>
         log (snd (ride_stats E self days w)) =
           log w @ [BASE_API @ url] @
           map (\<lambda>p. BASE_API @ ''/rides/'' @ format_s E (fst p)) ins"
proof -
  let ?mk = "\<lambda>p. ORide \<lparr>ride_id = fst p, ride_name = snd p,
             ride_detail = None, ride_segments = [], ride_stream = None\<rparr>"
  let ?n = "length (heap w)"
  let ?w0 = "w\<lparr>log := log w @ [BASE_API @ url]\<rparr>"
  let ?w1 = "?w0\<lparr>heap := heap w @ map ?mk ins\<rparr>"
  have ld: "load E url (Some ''rides'') w = (Inr (JList entries), ?w0)"
    using assms(3,4) by (simp add: load_def)
  have rs: "rides E self (Some start) w = (Inr [?n ..< ?n + length ins], ?w1)"
    unfolding rides_def Let_def option.case assms(2) [symmetric]
    using ld rides_loop_ok [OF assms(5), of "[]" ?w0] by simp
  have a1: "\<forall>j < length ins. obj_at ?w1 (?n + j) =
             Some (ORide \<lparr>ride_id = fst (ins ! j), ride_name = snd (ins ! j),
                ride_detail = None, ride_segments = [], ride_stream = None\<rparr>)"
    by (simp add: obj_at_def nth_append)
  have e0: "stats_get Map.empty key = Finite 0" for key
    by (simp add: stats_get_def)
  from stats_loop_ok [OF a1 assms(6) assms(7) assms(8), of Map.empty] obtain st' w' where
    r: "stats_loop E [?n ..< ?n + length ins] Map.empty ?w1 = (Inr st', w')" and
    r1: "stats_get st' ''rides'' =
      ((\<lambda>s. float_add s (Finite 1)) ^^ length ins) (Finite 0)" and
    r2: "stats_get st' ''moving_time'' = ((\<lambda>s. float_add s x) ^^ length ins) (Finite 0)" and
    r3: "stats_get st' ''distance'' = ((\<lambda>s. float_add s y) ^^ length ins) (Finite 0)" and
    r4: "log w' = log ?w1 @ map (\<lambda>p. BASE_API @ ''/rides/'' @ format_s E (fst p)) ins"
    unfolding e0 by auto
  have "ride_stats E self days w = (Inr st', w')"
    using assms(1) rs r by (simp add: ride_stats_def)
  then show ?thesis using r1 r2 r3 r4 by (simp add: stat_def)
qed

section \<open>The claims\<close>

text \<open>
  C1. A ride whose \<open>detail\<close> has not been read yet: when the first access returns a
  reference \<open>d\<close>, it has made exactly one request, for \<^verbatim>\<open>/rides/<id>\<close>, \<open>d\<close> denotes the
  new \<open>RideDetail\<close> and the ride now holds \<open>d\<close>; any number of further accesses return
  the same reference \<open>d\<close> and leave the state, hence the list of requests, as it is.
\<close>

theorem Ride_detail_fetched_once:
  assumes "obj_at w a = Some (ORide r)" and "ride_detail r = None"
    and "Ride_detail E a w = (Inr d, w1)"
  shows "log w1 = log w @ [BASE_API @ ''/rides/'' @ format_s E (ride_id r)] \<and>
         (\<exists>v. obj_at w1 d = Some (ORideDetail \<lparr>detail_id = ride_id r, detail_attr = v\<rparr>)) \<and>
         obj_at w1 a = Some (ORide (r\<lparr>ride_detail := Some d\<rparr>)) \<and>
         (\<forall>n. ((\<lambda>w'. snd (Ride_detail E a w')) ^^ n) w1 = w1 \<and>
              fst (Ride_detail E a (((\<lambda>w'. snd (Ride_detail E a w')) ^^ n) w1)) = Inr d)"
proof -
  from assms obtain w' where init: "RideDetail_init E (ride_id r) w = (Inr d, w')"
    and w1: "w1 = put a (ORide (r\<lparr>ride_detail := Some d\<rparr>)) w'"
    by (auto simp: Ride_detail_def split: prod.splits sum.splits)
  from RideDetail_init_Inr [OF init] obtain v where
    d: "d = length (heap w)" and
    lg: "log w' = log w @ [BASE_API @ ''/rides/'' @ format_s E (ride_id r)]" and
    hp: "heap w' = heap w @ [ORideDetail \<lparr>detail_id = ride_id r, detail_attr = v\<rparr>]"
    by blast
  from assms(1) have a: "a < length (heap w)" by (rule obj_at_Some_less)
  have 1: "log w1 = log w @ [BASE_API @ ''/rides/'' @ format_s E (ride_id r)]"
    using w1 lg by (simp add: put_def)
  have 2: "obj_at w1 d = Some (ORideDetail \<lparr>detail_id = ride_id r, detail_attr = v\<rparr>)"
    using w1 hp d a by (simp add: obj_at_def put_def nth_append)
  have 3: "obj_at w1 a = Some (ORide (r\<lparr>ride_detail := Some d\<rparr>))"
    using w1 hp a by (simp add: obj_at_def put_def)
  have again: "Ride_detail E a w1 = (Inr d, w1)"
    using 3 by (simp add: Ride_detail_def)
  have stay: "((\<lambda>w'. snd (Ride_detail E a w')) ^^ n) w1 = w1" for n
    by (induction n) (simp_all add: again)
  show ?thesis using 1 2 3 stay again by auto
qed

theorem Ride_detail_fetched_once_witness:
  "obj_at demo_world 0 = Some (ORide \<lparr>ride_id = JNum 1, ride_name = JStr ''Loop'',
       ride_detail = None, ride_segments = [], ride_stream = None\<rparr>) \<and>
   fst (Ride_detail demo_env 0 demo_world) = Inr 2 \<and>
   log (snd (Ride_detail demo_env 0 demo_world)) = [''http://www.strava.com/api/v1/rides/1''] \<and>
   fst (Ride_detail demo_env 0 (((\<lambda>w'. snd (Ride_detail demo_env 0 w')) ^^ 3)
          (snd (Ride_detail demo_env 0 demo_world)))) = Inr 2 \<and>
   ((\<lambda>w'. snd (Ride_detail demo_env 0 w')) ^^ 3) (snd (Ride_detail demo_env 0 demo_world)) =
     snd (Ride_detail demo_env 0 demo_world)"
proof -
  let ?r = "\<lparr>ride_id = JNum 1, ride_name = JStr ''Loop'',
       ride_detail = None, ride_segments = [], ride_stream = None\<rparr>"
  have h1: "obj_at demo_world 0 = Some (ORide ?r)"
    by (simp add: obj_at_def demo_defs)
  have h2: "ride_detail ?r = None" by simp
  define W where "W = snd (Ride_detail demo_env 0 demo_world)"
  have h3: "Ride_detail demo_env 0 demo_world = (Inr 2, W)"
    unfolding W_def
    by (simp add: Ride_detail_def RideDetail_init_def load_def new_def obj_at_def put_def
          demo_defs dec.simps)
  have url: "log demo_world @ [BASE_API @ ''/rides/'' @ format_s demo_env (ride_id ?r)] =
      [''http://www.strava.com/api/v1/rides/1'']"
    by (simp add: demo_defs dec.simps)
  note T = Ride_detail_fetched_once [OF h1 h2 h3]
  from T url have c1: "log W = [''http://www.strava.com/api/v1/rides/1'']" by simp
  from T have "\<forall>n. ((\<lambda>w'. snd (Ride_detail demo_env 0 w')) ^^ n) W = W \<and>
      fst (Ride_detail demo_env 0 (((\<lambda>w'. snd (Ride_detail demo_env 0 w')) ^^ n) W)) = Inr 2"
    by blast
  then have c2: "((\<lambda>w'. snd (Ride_detail demo_env 0 w')) ^^ 3) W = W \<and>
      fst (Ride_detail demo_env 0 (((\<lambda>w'. snd (Ride_detail demo_env 0 w')) ^^ 3) W)) = Inr 2"
    by (rule spec)
  have c3: "fst (Ride_detail demo_env 0 demo_world) = Inr 2" using h3 by simp
  show ?thesis
    using h1 c1 c2 c3 unfolding W_def by blast
qed

text \<open>
  C3, as the code has it. \<open>load\<close> fails with \<open>APIError\<close> in exactly three cases, the
  message being the path followed by the cause: \<^verbatim>\<open>urlopen\<close> raised \<^verbatim>\<open>HTTPError\<close>; the
  body is not JSON; a result key was given and the body is a JSON object without that
  key. Nothing is said of the failures the code does not wrap.
\<close>

theorem load_api_error:
  "fst (load E url key w) = Inl (APIError m) \<longleftrightarrow>
     (\<exists>e. urlopen E (log w) (BASE_API @ url) = HTTPError e \<and>
          m = url @ '': request failed: '' @ e) \<or>
     (\<exists>e. urlopen E (log w) (BASE_API @ url) = NotJSON e \<and>
          m = url @ '': parsing response failed: '' @ e) \<or>
     (\<exists>kvs k. urlopen E (log w) (BASE_API @ url) = Decoded (JObj kvs) \<and> key = Some k \<and>
          map_of kvs k = None \<and> m = url @ '': parsing response failed: '' @ key_repr k)"
proof (cases "urlopen E (log w) (BASE_API @ url)")
  case (Decoded v)
  show ?thesis
  proof (cases key)
    case None
    with Decoded show ?thesis by (simp add: load_def)
  next
    case (Some k)
    with Decoded show ?thesis
      by (cases v) (auto simp: load_def split: option.splits)
  qed
qed (auto simp: load_def)

theorem load_api_error_witness:
  "fst (load demo_env ''/rides/1'' (Some ''rides'') demo_world) =
     Inl (APIError (''/rides/1: parsing response failed: '' @ [CHR 0x27] @ ''rides'' @ [CHR 0x27]))"
  using load_api_error [of demo_env "''/rides/1''" "Some ''rides''" demo_world
      "''/rides/1: parsing response failed: '' @ [CHR 0x27] @ ''rides'' @ [CHR 0x27]"]
  by (simp add: demo_defs key_repr_def)

text \<open>
  C3, as the spec has it, fails: a connection that cannot be made is a transport
  failure, and \<open>load\<close> lets the \<^verbatim>\<open>URLError\<close> through instead of raising \<open>APIError\<close>.
\<close>

theorem load_network_error_counterexample:
  "urlopen demo_env (log demo_world) (BASE_API @ ''/rides/offline'') =
     ConnectionFailed ''<urlopen error timed out>'' \<and>
   fst (load demo_env ''/rides/offline'' (Some ''ride'') demo_world) =
     Inl (URLError ''<urlopen error timed out>'')"
  by (simp add: load_def demo_defs)

text \<open>
  C5. For a segment whose \<open>detail\<close> has not been read yet, with \<open>l1\<close> the fetch of
  \<^verbatim>\<open>/efforts/<effortId>\<close> keyed \<^verbatim>\<open>effort\<close> and \<open>l2\<close> the fetch of \<^verbatim>\<open>/segments/<routeId>\<close>
  keyed \<^verbatim>\<open>segment\<close> that follows it: when \<open>l1\<close> fails, or \<open>l1\<close> succeeds and \<open>l2\<close> fails,
  the construction and \<open>Segment.detail\<close> fail with that very error and the store is
  unchanged, so no \<open>SegmentDetail\<close> exists and the segment's field is still empty;
  when both succeed, exactly these two requests were made, in this order, the new
  \<open>SegmentDetail\<close> holds both snapshots and the segment's field refers to it.
\<close>

theorem SegmentDetail_all_or_nothing:
  assumes "obj_at w a = Some (OSegment s)" and "segment_detail s = None"
    and "subscript (segment_segment s) ''id'' = Inr rid"
    and "l1 = load E (''/efforts/'' @ format_s E (segment_id s)) (Some ''effort'') w"
    and "l2 = load E (''/segments/'' @ format_s E rid) (Some ''segment'') (snd l1)"
  shows "(\<forall>e. fst l1 = Inl e \<longrightarrow>
            SegmentDetail_init E rid (segment_id s) w = (Inl e, snd l1) \<and>
            Segment_detail E a w = (Inl e, snd l1) \<and>
            heap (snd l1) = heap w \<and> obj_at (snd l1) a = Some (OSegment s) \<and>
            log (snd l1) = log w @ [BASE_API @ ''/efforts/'' @ format_s E (segment_id s)]) \<and>
         (\<forall>ev e. fst l1 = Inr ev \<and> fst l2 = Inl e \<longrightarrow>
            SegmentDetail_init E rid (segment_id s) w = (Inl e, snd l2) \<and>
            Segment_detail E a w = (Inl e, snd l2) \<and>
            heap (snd l2) = heap w \<and> obj_at (snd l2) a = Some (OSegment s) \<and>
            log (snd l2) = log w @ [BASE_API @ ''/efforts/'' @ format_s E (segment_id s),
                                    BASE_API @ ''/segments/'' @ format_s E rid]) \<and>
         (\<forall>ev sv. fst l1 = Inr ev \<and> fst l2 = Inr sv \<longrightarrow>
            (\<exists>w'. SegmentDetail_init E rid (segment_id s) w = (Inr (length (heap w)), w') \<and>
                  heap w' = heap w @ [OSegmentDetail
                     \<lparr>sdetail_id = rid, effort_attr = ev, segment_attr = sv\<rparr>] \<and>
                  log w' = log w @ [BASE_API @ ''/efforts/'' @ format_s E (segment_id s),
                                    BASE_API @ ''/segments/'' @ format_s E rid] \<and>
                  Segment_detail E a w =
                    (Inr (length (heap w)),
                     put a (OSegment (s\<lparr>segment_detail := Some (length (heap w))\<rparr>)) w')))"
proof -
  obtain r1 w1 where e1: "l1 = (r1, w1)" by (cases l1)
  obtain r2 w2 where e2: "l2 = (r2, w2)" by (cases l2)
  have l1: "load E (''/efforts/'' @ format_s E (segment_id s)) (Some ''effort'') w = (r1, w1)"
    using assms(4) [symmetric] e1 by simp
  have l2: "load E (''/segments/'' @ format_s E rid) (Some ''segment'') w1 = (r2, w2)"
    using assms(5) [symmetric] e1 e2 by simp
  note w1 = load_world [OF l1]
  note w2 = load_world [OF l2]
  show ?thesis
  proof (cases r1)
    case (Inl e)
    then show ?thesis
      using l1 w1 e1 assms(1-3) by (simp add: SegmentDetail_init_def Segment_detail_def)
  next
    case r1: (Inr ev)
    show ?thesis
    proof (cases r2)
      case (Inl e)
      then show ?thesis
        using r1 l1 l2 w1 w2 e1 e2 assms(1-3)
        by (simp add: SegmentDetail_init_def Segment_detail_def)
    next
      case (Inr sv)
      then show ?thesis
        using r1 l1 l2 w1 w2 e1 e2 assms(1-3)
        by (simp add: SegmentDetail_init_def Segment_detail_def new_def)
    qed
  qed
qed

theorem SegmentDetail_all_or_nothing_witness:
  "Segment_detail demo_env 1 demo_world =
     (Inl (APIError ''/segments/5: request failed: HTTP Error 404: Not Found''),
      demo_world\<lparr>log := [''http://www.strava.com/api/v1/efforts/11'',
                          ''http://www.strava.com/api/v1/segments/5'']\<rparr>) \<and>
   heap (snd (Segment_detail demo_env 1 demo_world)) = heap demo_world"
proof -
  let ?s = "\<lparr>segment_id = JNum 11,
             segment_segment = JObj [(''id'', JNum 5), (''name'', JStr ''Climb'')],
             segment_time = JNum 30, segment_detail = None\<rparr>"
  let ?l1 = "load demo_env (''/efforts/'' @ format_s demo_env (segment_id ?s))
               (Some ''effort'') demo_world"
  let ?l2 = "load demo_env (''/segments/'' @ format_s demo_env (JNum 5))
               (Some ''segment'') (snd ?l1)"
  have h1: "obj_at demo_world 1 = Some (OSegment ?s)" by (simp add: obj_at_def demo_defs)
  have h2: "segment_detail ?s = None" by simp
  have h3: "subscript (segment_segment ?s) ''id'' = Inr (JNum 5)" by simp
  have e1: "?l1 = (Inr (JObj [(''elapsedTime'', JNum 30)]),
      demo_world\<lparr>log := [''http://www.strava.com/api/v1/efforts/11'']\<rparr>)"
    by (simp add: load_def demo_defs dec.simps)
  have e2: "load demo_env (''/segments/'' @ format_s demo_env (JNum 5)) (Some ''segment'')
      (demo_world\<lparr>log := [''http://www.strava.com/api/v1/efforts/11'']\<rparr>) =
    (Inl (APIError ''/segments/5: request failed: HTTP Error 404: Not Found''),
      demo_world\<lparr>log := [''http://www.strava.com/api/v1/efforts/11'',
                          ''http://www.strava.com/api/v1/segments/5'']\<rparr>)"
    by (simp add: load_def demo_defs dec.simps)
  note T = SegmentDetail_all_or_nothing [OF h1 h2 h3 refl refl, of demo_env]
  from T have "\<forall>ev e. fst ?l1 = Inr ev \<and> fst ?l2 = Inl e \<longrightarrow>
      Segment_detail demo_env 1 demo_world = (Inl e, snd ?l2) \<and> heap (snd ?l2) = heap demo_world"
    by blast
  then have "Segment_detail demo_env 1 demo_world =
      (Inl (APIError ''/segments/5: request failed: HTTP Error 404: Not Found''), snd ?l2) \<and>
      heap (snd ?l2) = heap demo_world"
    using e1 e2 by simp
  then show ?thesis using e1 e2 by simp
qed

text \<open>
  C7. For a ride with the efforts address \<open>u\<close>: while its list of segments is empty,
  every access of \<open>segments\<close> requests \<open>u\<close>. When the listing is empty the access
  returns the empty list and changes nothing but the list of requests, so the next
  access requests \<open>u\<close> again. When the listing is a list of well-formed entries that
  is not empty, the access makes that one request, builds one \<open>Segment\<close> for each entry,
  in order, stores them in the ride and returns them, and the next access returns the
  same segments and changes nothing: it makes no request. In general, once an access
  has returned a list that is not empty, the next access returns the same list with no
  request.
\<close>

theorem Ride_segments_empty_refetch:
  assumes "obj_at w a = Some (ORide r)"
    and "u = BASE_API @ ''/rides/'' @ format_s E (ride_id r) @ ''/efforts''"
  shows "(ride_segments r = [] \<longrightarrow> log (snd (Ride_segments E a w)) = log w @ [u]) \<and>
         (ride_segments r = [] \<and> (\<exists>kvs. urlopen E (log w) u = Decoded (JObj kvs) \<and>
              map_of kvs ''efforts'' = Some (JList [])) \<longrightarrow>
            Ride_segments E a w = (Inr [], w\<lparr>log := log w @ [u]\<rparr>) \<and>
            log (snd (Ride_segments E a (snd (Ride_segments E a w)))) = log w @ [u, u]) \<and>
         (ride_segments r = [] \<and> efforts \<noteq> [] \<and>
            (\<exists>kvs. urlopen E (log w) u = Decoded (JObj kvs) \<and>
              map_of kvs ''efforts'' = Some (JList efforts)) \<and>
            list_all2 (\<lambda>e s. subscript e ''id'' = Inr (segment_id s) \<and>
                             subscript e ''segment'' = Inr (segment_segment s) \<and>
                             subscript e ''elapsed_time'' = Inr (segment_time s) \<and>
                             segment_detail s = None) efforts segs \<longrightarrow>
            Ride_segments E a w =
              (Inr [length (heap w) ..< length (heap w) + length efforts],
               w\<lparr>log := log w @ [u],
                 heap := (heap w @ map OSegment segs)
                   [a := ORide (r\<lparr>ride_segments :=
                      [length (heap w) ..< length (heap w) + length efforts]\<rparr>)]\<rparr>) \<and>
            [length (heap w) ..< length (heap w) + length efforts] \<noteq> [] \<and>
            Ride_segments E a (snd (Ride_segments E a w)) = Ride_segments E a w) \<and>
         (\<forall>xs w'. Ride_segments E a w = (Inr xs, w') \<and> xs \<noteq> [] \<longrightarrow>
            Ride_segments E a w' = (Inr xs, w'))"
proof (intro conjI impI allI)
  let ?url = "''/rides/'' @ format_s E (ride_id r) @ ''/efforts''"
  have u: "u = BASE_API @ ?url" using assms(2) by simp
  have fetch: "log (snd (Ride_segments E a w0)) = log w0 @ [u]"
    if "obj_at w0 a = Some (ORide r)" "ride_segments r = []" for w0
  proof -
    obtain res w1 where l: "load E ?url (Some ''efforts'') w0 = (res, w1)"
      by (cases "load E ?url (Some ''efforts'') w0")
    have w1: "log w1 = log w0 @ [u]" using load_world [OF l] u by simp
    show ?thesis
      using that l w1
      by (auto simp: Ride_segments_def dest: segments_loop_logD
               split: sum.splits prod.splits option.splits obj.splits)
  qed
  { assume "ride_segments r = []"
    then show "log (snd (Ride_segments E a w)) = log w @ [u]"
      using fetch [OF assms(1)] by simp }
  { assume h: "ride_segments r = [] \<and> (\<exists>kvs. urlopen E (log w) u = Decoded (JObj kvs) \<and>
              map_of kvs ''efforts'' = Some (JList []))"
    then obtain kvs where k: "urlopen E (log w) (BASE_API @ ?url) = Decoded (JObj kvs)"
      "map_of kvs ''efforts'' = Some (JList [])" using u by auto
    have l: "load E ?url (Some ''efforts'') w = (Inr (JList []), w\<lparr>log := log w @ [u]\<rparr>)"
      using k u by (simp add: load_def)
    show first: "Ride_segments E a w = (Inr [], w\<lparr>log := log w @ [u]\<rparr>)"
      using assms(1) h l by (simp add: Ride_segments_def)
    show "log (snd (Ride_segments E a (snd (Ride_segments E a w)))) = log w @ [u, u]"
      using first fetch [of "w\<lparr>log := log w @ [u]\<rparr>"] assms(1) h by simp }
  { assume h: "ride_segments r = [] \<and> efforts \<noteq> [] \<and>
            (\<exists>kvs. urlopen E (log w) u = Decoded (JObj kvs) \<and>
              map_of kvs ''efforts'' = Some (JList efforts)) \<and>
            list_all2 (\<lambda>e s. subscript e ''id'' = Inr (segment_id s) \<and>
                             subscript e ''segment'' = Inr (segment_segment s) \<and>
                             subscript e ''elapsed_time'' = Inr (segment_time s) \<and>
                             segment_detail s = None) efforts segs"
    let ?n = "length (heap w)"
    let ?refs = "[?n ..< ?n + length efforts]"
    let ?r' = "r\<lparr>ride_segments := ?refs\<rparr>"
    let ?w1 = "w\<lparr>log := log w @ [u]\<rparr>"
    let ?w2 = "w\<lparr>log := log w @ [u], heap := (heap w @ map OSegment segs)[a := ORide ?r']\<rparr>"
    from h have em: "ride_segments r = []" and ne: "efforts \<noteq> []"
      and la: "list_all2 (\<lambda>e s. subscript e ''id'' = Inr (segment_id s) \<and>
                             subscript e ''segment'' = Inr (segment_segment s) \<and>
                             subscript e ''elapsed_time'' = Inr (segment_time s) \<and>
                             segment_detail s = None) efforts segs"
      by blast+
    from h obtain kvs where k: "urlopen E (log w) (BASE_API @ ?url) = Decoded (JObj kvs)"
      "map_of kvs ''efforts'' = Some (JList efforts)" using u by auto
    have len: "length segs = length efforts" using la by (simp add: list_all2_lengthD)
    have l: "load E ?url (Some ''efforts'') w = (Inr (JList efforts), ?w1)"
      using k u by (simp add: load_def)
    have a1: "obj_at ?w1 a = Some (ORide r)" using assms(1) by simp
    have lp: "segments_loop a efforts ?w1 = (Inr (), ?w2)"
      using segments_loop_ok [OF la a1] em len by simp
    have a: "a < ?n" using assms(1) by (rule obj_at_Some_less)
    have a2: "obj_at ?w2 a = Some (ORide ?r')" using a by (simp add: obj_at_def)
    show first: "Ride_segments E a w = (Inr ?refs, ?w2)"
      using assms(1) em l lp a2 by (simp add: Ride_segments_def)
    show nonempty: "?refs \<noteq> []" using ne by simp
    have "Ride_segments E a ?w2 = (Inr ?refs, ?w2)"
      using a2 nonempty by (simp add: Ride_segments_def)
    then show "Ride_segments E a (snd (Ride_segments E a w)) = Ride_segments E a w"
      using first by simp }
  { fix xs w' assume "Ride_segments E a w = (Inr xs, w') \<and> xs \<noteq> []"
    then show "Ride_segments E a w' = (Inr xs, w')"
      using assms(1)
      by (auto simp: Ride_segments_def
               split: sum.splits prod.splits option.splits obj.splits if_splits) }
qed

theorem Ride_segments_empty_refetch_witness:
  "Ride_segments demo_env 0 demo_world =
     (Inr [], demo_world\<lparr>log := [''http://www.strava.com/api/v1/rides/1/efforts'']\<rparr>) \<and>
   log (snd (Ride_segments demo_env 0 (snd (Ride_segments demo_env 0 demo_world)))) =
     [''http://www.strava.com/api/v1/rides/1/efforts'',
      ''http://www.strava.com/api/v1/rides/1/efforts''] \<and>
   Ride_segments demo_env 0
     \<lparr>log = [], heap = [ORide \<lparr>ride_id = JNum 2, ride_name = JStr ''Hill'',
        ride_detail = None, ride_segments = [], ride_stream = None\<rparr>]\<rparr> =
     (Inr [1],
      \<lparr>log = [''http://www.strava.com/api/v1/rides/2/efforts''],
       heap = [ORide \<lparr>ride_id = JNum 2, ride_name = JStr ''Hill'',
                 ride_detail = None, ride_segments = [1], ride_stream = None\<rparr>,
               OSegment \<lparr>segment_id = JNum 11,
                 segment_segment = JObj [(''id'', JNum 5), (''name'', JStr ''Climb'')],
                 segment_time = JNum 30, segment_detail = None\<rparr>]\<rparr>) \<and>
   Ride_segments demo_env 0
     \<lparr>log = [''http://www.strava.com/api/v1/rides/2/efforts''],
       heap = [ORide \<lparr>ride_id = JNum 2, ride_name = JStr ''Hill'',
                 ride_detail = None, ride_segments = [1], ride_stream = None\<rparr>,
               OSegment \<lparr>segment_id = JNum 11,
                 segment_segment = JObj [(''id'', JNum 5), (''name'', JStr ''Climb'')],
                 segment_time = JNum 30, segment_detail = None\<rparr>]\<rparr> =
     (Inr [1],
      \<lparr>log = [''http://www.strava.com/api/v1/rides/2/efforts''],
       heap = [ORide \<lparr>ride_id = JNum 2, ride_name = JStr ''Hill'',
                 ride_detail = None, ride_segments = [1], ride_stream = None\<rparr>,
               OSegment \<lparr>segment_id = JNum 11,
                 segment_segment = JObj [(''id'', JNum 5), (''name'', JStr ''Climb'')],
                 segment_time = JNum 30, segment_detail = None\<rparr>]\<rparr>)"
proof -
  let ?r = "\<lparr>ride_id = JNum 1, ride_name = JStr ''Loop'',
       ride_detail = None, ride_segments = [], ride_stream = None\<rparr>"
  let ?u = "''http://www.strava.com/api/v1/rides/1/efforts''"
  have h1: "obj_at demo_world 0 = Some (ORide ?r)" by (simp add: obj_at_def demo_defs)
  have h2: "?u = BASE_API @ ''/rides/'' @ format_s demo_env (ride_id ?r) @ ''/efforts''"
    by (simp add: demo_defs dec.simps)
  have h3: "ride_segments ?r = [] \<and>
      (\<exists>kvs. urlopen demo_env (log demo_world) ?u = Decoded (JObj kvs) \<and>
             map_of kvs ''efforts'' = Some (JList []))"
    by (simp add: demo_defs)
  have lg: "log demo_world = []" by (simp add: demo_defs)
  from Ride_segments_empty_refetch [OF h1 h2] h3
  have T: "Ride_segments demo_env 0 demo_world =
        (Inr [], demo_world\<lparr>log := log demo_world @ [?u]\<rparr>) \<and>
      log (snd (Ride_segments demo_env 0 (snd (Ride_segments demo_env 0 demo_world)))) =
        log demo_world @ [?u, ?u]"
    by blast
  have one: "Ride_segments demo_env 0 demo_world =
        (Inr [], demo_world\<lparr>log := [?u]\<rparr>) \<and>
      log (snd (Ride_segments demo_env 0 (snd (Ride_segments demo_env 0 demo_world)))) =
        [?u, ?u]"
    using T unfolding lg append_Nil by blast
  let ?q = "\<lparr>ride_id = JNum 2, ride_name = JStr ''Hill'',
       ride_detail = None, ride_segments = [], ride_stream = None\<rparr>"
  let ?v = "''http://www.strava.com/api/v1/rides/2/efforts''"
  let ?effort = "JObj [(''id'', JNum 11), (''elapsed_time'', JNum 30),
            (''segment'', JObj [(''id'', JNum 5), (''name'', JStr ''Climb'')])]"
  let ?s = "\<lparr>segment_id = JNum 11,
       segment_segment = JObj [(''id'', JNum 5), (''name'', JStr ''Climb'')],
       segment_time = JNum 30, segment_detail = None\<rparr>"
  define W where "W = \<lparr>log = [], heap = [ORide ?q]\<rparr>"
  define W' where "W' = \<lparr>log = [?v],
       heap = [ORide (?q\<lparr>ride_segments := [1]\<rparr>), OSegment ?s]\<rparr>"
  have g1: "obj_at W 0 = Some (ORide ?q)" by (simp add: obj_at_def W_def)
  have g2: "?v = BASE_API @ ''/rides/'' @ format_s demo_env (ride_id ?q) @ ''/efforts''"
    by (simp add: demo_defs dec.simps)
  have g3: "ride_segments ?q = [] \<and> [?effort] \<noteq> [] \<and>
      (\<exists>kvs. urlopen demo_env (log W) ?v = Decoded (JObj kvs) \<and>
             map_of kvs ''efforts'' = Some (JList [?effort])) \<and>
      list_all2 (\<lambda>e s. subscript e ''id'' = Inr (segment_id s) \<and>
                       subscript e ''segment'' = Inr (segment_segment s) \<and>
                       subscript e ''elapsed_time'' = Inr (segment_time s) \<and>
                       segment_detail s = None) [?effort] [?s]"
    by (simp add: demo_defs)
  have w': "W\<lparr>log := log W @ [?v],
        heap := (heap W @ map OSegment [?s])
          [0 := ORide (?q\<lparr>ride_segments :=
             [length (heap W) ..< length (heap W) + length [?effort]]\<rparr>)]\<rparr> = W'"
    by (simp add: W_def W'_def)
  have refs: "[length (heap W) ..< length (heap W) + length [?effort]] = [1]"
    by (simp add: W_def)
  from Ride_segments_empty_refetch [OF g1 g2, of "[?effort]" "[?s]"] g3
  have U: "Ride_segments demo_env 0 W =
        (Inr [length (heap W) ..< length (heap W) + length [?effort]],
         W\<lparr>log := log W @ [?v],
           heap := (heap W @ map OSegment [?s])
             [0 := ORide (?q\<lparr>ride_segments :=
                [length (heap W) ..< length (heap W) + length [?effort]]\<rparr>)]\<rparr>) \<and>
      Ride_segments demo_env 0 (snd (Ride_segments demo_env 0 W)) =
        Ride_segments demo_env 0 W"
    by blast
  from U have U1: "Ride_segments demo_env 0 W =
        (Inr [length (heap W) ..< length (heap W) + length [?effort]],
         W\<lparr>log := log W @ [?v],
           heap := (heap W @ map OSegment [?s])
             [0 := ORide (?q\<lparr>ride_segments :=
                [length (heap W) ..< length (heap W) + length [?effort]]\<rparr>)]\<rparr>)"
    and U2: "Ride_segments demo_env 0 (snd (Ride_segments demo_env 0 W)) =
        Ride_segments demo_env 0 W"
    by blast+
  note U3 = U1 [unfolded w']
  note U4 = U3 [unfolded refs]
  have two: "Ride_segments demo_env 0 W = (Inr [1], W') \<and>
      Ride_segments demo_env 0 W' = (Inr [1], W')"
    using U4 U2 by simp
  have W'': "W' = \<lparr>log = [?v],
       heap = [ORide \<lparr>ride_id = JNum 2, ride_name = JStr ''Hill'',
                 ride_detail = None, ride_segments = [1], ride_stream = None\<rparr>,
               OSegment ?s]\<rparr>"
    by (simp add: W'_def)
  show ?thesis using one two unfolding W_def W'' by blast
qed

text \<open>
  C2. When the snapshot of a \<open>RideStream\<close> is a mapping, each of the fifteen named
  accessors returns, never failing, the value stored under the key it queries when
  the mapping has that key, and the empty list when it has not.
\<close>

theorem RideStream_accessors_tolerant:
  assumes "stream_attr s = JObj kvs"
  shows "\<forall>(f, key) \<in> set
           [(RideStream_altitude, ''altitude''),
            (RideStream_altitude_original, ''altitiude_original''),
            (RideStream_cadence, ''cadence''),
            (RideStream_distance, ''distance''),
            (RideStream_grade_smooth, ''grade_smooth''),
            (RideStream_heartrate, ''heartrate''),
            (RideStream_latlng, ''latlng''),
            (RideStream_moving, ''moving''),
            (RideStream_outlier, ''outlier''),
            (RideStream_resting, ''resting''),
            (RideStream_temp, ''temp''),
            (RideStream_time, ''time''),
            (RideStream_total_elevation, ''total_elevation''),
            (RideStream_watts_calc, ''watts_calc''),
            (RideStream_velocity_smooth, ''velocity_smooth'')].
         f s = Inr (case map_of kvs key of None \<Rightarrow> JList [] | Some v \<Rightarrow> v)"
proof -
  have tgv: "try_get_values s key =
      Inr (case map_of kvs key of None \<Rightarrow> JList [] | Some v \<Rightarrow> v)" for key
    using assms
    by (simp add: try_get_values_def and_then_def contains_JObj del: contains.simps
          split: option.splits)
  show ?thesis
    unfolding RideStream_altitude_def RideStream_altitude_original_def RideStream_cadence_def
      RideStream_distance_def RideStream_grade_smooth_def RideStream_heartrate_def
      RideStream_latlng_def RideStream_moving_def RideStream_outlier_def
      RideStream_resting_def RideStream_temp_def RideStream_time_def
      RideStream_total_elevation_def RideStream_watts_calc_def RideStream_velocity_smooth_def
    by (simp add: tgv)
qed

theorem RideStream_accessors_tolerant_witness:
  "RideStream_cadence
     \<lparr>stream_id = JNum 1,
      stream_attr = JObj [(''altitude'', JList [JNum 10, JNum 20, JNum 30])]\<rparr> = Inr (JList []) \<and>
   RideStream_altitude
     \<lparr>stream_id = JNum 1,
      stream_attr = JObj [(''altitude'', JList [JNum 10, JNum 20, JNum 30])]\<rparr> =
     Inr (JList [JNum 10, JNum 20, JNum 30])"
  using RideStream_accessors_tolerant
    [of "\<lparr>stream_id = JNum 1,
          stream_attr = JObj [(''altitude'', JList [JNum 10, JNum 20, JNum 30])]\<rparr>"
        "[(''altitude'', JList [JNum 10, JNum 20, JNum 30])]"]
  by simp

text \<open>
  C8. When the snapshot is a mapping, \<open>altitude_original\<close> answers from the key
  \<^verbatim>\<open>altitiude_original\<close>: the empty list when the mapping lacks that key, whatever it
  holds under \<^verbatim>\<open>altitude_original\<close>, and the value under that key otherwise.
\<close>

theorem altitude_original_misspelled:
  assumes "stream_attr s = JObj kvs"
  shows "(map_of kvs ''altitiude_original'' = None \<longrightarrow>
            RideStream_altitude_original s = Inr (JList [])) \<and>
         (\<forall>v. map_of kvs ''altitiude_original'' = Some v \<longrightarrow>
            RideStream_altitude_original s = Inr v)"
  using assms
  by (simp add: RideStream_altitude_original_def try_get_values_def and_then_def
        contains_JObj del: contains.simps)

theorem altitude_original_misspelled_witness:
  "RideStream_altitude_original
     \<lparr>stream_id = JNum 1,
      stream_attr = JObj [(''altitude_original'', JList [JNum 10, JNum 20])]\<rparr> = Inr (JList []) \<and>
   RideStream_altitude_original
     \<lparr>stream_id = JNum 1,
      stream_attr = JObj [(''altitiude_original'', JList [JNum 10, JNum 20])]\<rparr> =
     Inr (JList [JNum 10, JNum 20])"
  using altitude_original_misspelled
    [of "\<lparr>stream_id = JNum 1,
          stream_attr = JObj [(''altitude_original'', JList [JNum 10, JNum 20])]\<rparr>"
        "[(''altitude_original'', JList [JNum 10, JNum 20])]"]
    altitude_original_misspelled
    [of "\<lparr>stream_id = JNum 1,
          stream_attr = JObj [(''altitiude_original'', JList [JNum 10, JNum 20])]\<rparr>"
        "[(''altitiude_original'', JList [JNum 10, JNum 20])]"]
  by simp

text \<open>
  C9. When the snapshot of a \<open>RideDetail\<close> is a mapping: \<open>location\<close>, \<open>distance\<close> and
  \<open>moving_time\<close> return the value under \<^verbatim>\<open>location\<close>, \<^verbatim>\<open>distance\<close> and \<^verbatim>\<open>movingTime\<close>,
  and fail with \<open>KeyError\<close> of that key when it is missing; \<open>athlete\<close>, \<open>athlete_id\<close>,
  \<open>bike\<close> and \<open>bike_id\<close> fail with \<open>KeyError\<close> when \<^verbatim>\<open>athlete\<close> or \<^verbatim>\<open>bike\<close> is missing,
  and when it is a mapping they return its \<^verbatim>\<open>name\<close> or \<^verbatim>\<open>id\<close>, failing with \<open>KeyError\<close>
  of that nested key when it is missing. No accessor returns a default.
\<close>

theorem RideDetail_accessors_project:
  assumes "detail_attr d = JObj kvs"
  shows "RideDetail_location d =
           (case map_of kvs ''location'' of None \<Rightarrow> Inl (KeyError ''location'') | Some v \<Rightarrow> Inr v) \<and>
         RideDetail_distance d =
           (case map_of kvs ''distance'' of None \<Rightarrow> Inl (KeyError ''distance'') | Some v \<Rightarrow> Inr v) \<and>
         RideDetail_moving_time d =
           (case map_of kvs ''movingTime'' of
              None \<Rightarrow> Inl (KeyError ''movingTime'') | Some v \<Rightarrow> Inr v) \<and>
         (map_of kvs ''athlete'' = None \<longrightarrow>
            RideDetail_athlete d = Inl (KeyError ''athlete'') \<and>
            RideDetail_athlete_id d = Inl (KeyError ''athlete'')) \<and>
         (map_of kvs ''bike'' = None \<longrightarrow>
            RideDetail_bike d = Inl (KeyError ''bike'') \<and>
            RideDetail_bike_id d = Inl (KeyError ''bike'')) \<and>
         (\<forall>avs. map_of kvs ''athlete'' = Some (JObj avs) \<longrightarrow>
            RideDetail_athlete d =
              (case map_of avs ''name'' of None \<Rightarrow> Inl (KeyError ''name'') | Some v \<Rightarrow> Inr v) \<and>
            RideDetail_athlete_id d =
              (case map_of avs ''id'' of None \<Rightarrow> Inl (KeyError ''id'') | Some v \<Rightarrow> Inr v)) \<and>
         (\<forall>bvs. map_of kvs ''bike'' = Some (JObj bvs) \<longrightarrow>
            RideDetail_bike d =
              (case map_of bvs ''name'' of None \<Rightarrow> Inl (KeyError ''name'') | Some v \<Rightarrow> Inr v) \<and>
            RideDetail_bike_id d =
              (case map_of bvs ''id'' of None \<Rightarrow> Inl (KeyError ''id'') | Some v \<Rightarrow> Inr v))"
  using assms
  by (simp add: RideDetail_location_def RideDetail_distance_def RideDetail_moving_time_def
        RideDetail_athlete_def RideDetail_athlete_id_def RideDetail_bike_def
        RideDetail_bike_id_def and_then_def)

theorem RideDetail_accessors_project_witness:
  "RideDetail_moving_time \<lparr>detail_id = JNum 1, detail_attr = JObj
       [(''athlete'', JObj [(''id'', JNum 7)]), (''movingTime'', JNum 60)]\<rparr> = Inr (JNum 60) \<and>
   RideDetail_athlete_id \<lparr>detail_id = JNum 1, detail_attr = JObj
       [(''athlete'', JObj [(''id'', JNum 7)]), (''movingTime'', JNum 60)]\<rparr> = Inr (JNum 7) \<and>
   RideDetail_athlete \<lparr>detail_id = JNum 1, detail_attr = JObj
       [(''athlete'', JObj [(''id'', JNum 7)]), (''movingTime'', JNum 60)]\<rparr> =
     Inl (KeyError ''name'') \<and>
   RideDetail_bike \<lparr>detail_id = JNum 1, detail_attr = JObj
       [(''athlete'', JObj [(''id'', JNum 7)]), (''movingTime'', JNum 60)]\<rparr> =
     Inl (KeyError ''bike'') \<and>
   RideDetail_distance \<lparr>detail_id = JNum 1, detail_attr = JObj
       [(''athlete'', JObj [(''id'', JNum 7)]), (''movingTime'', JNum 60)]\<rparr> =
     Inl (KeyError ''distance'')"
  using RideDetail_accessors_project
    [of "\<lparr>detail_id = JNum 1, detail_attr = JObj
          [(''athlete'', JObj [(''id'', JNum 7)]), (''movingTime'', JNum 60)]\<rparr>"
        "[(''athlete'', JObj [(''id'', JNum 7)]), (''movingTime'', JNum 60)]"]
  by simp

text \<open>
  C6. When the unfiltered listing \<^verbatim>\<open>/rides?athleteId=<id>\<close> decodes to entries that each
  have an \<^verbatim>\<open>id\<close> and a \<^verbatim>\<open>name\<close>, \<open>ride\<close> requests exactly that address; it returns
  \<^verbatim>\<open>None\<close>, not an error, when no entry's id equals the one asked for, and otherwise
  the \<open>Ride\<close> built from the first entry whose id equals it.
\<close>

theorem Athlete_ride_first_match:
  assumes "urlopen E (log w) (BASE_API @ athlete_url self) = Decoded (JObj kvs)"
    and "map_of kvs ''rides'' = Some (JList entries)"
    and "list_all2 (\<lambda>e p. subscript e ''id'' = Inr (fst p) \<and>
                          subscript e ''name'' = Inr (snd p)) entries ins"
    and "ride E self rid w = (res, w')"
  shows "log w' = log w @ [BASE_API @ athlete_url self] \<and>
         (\<not> (\<exists>p \<in> set ins. py_eq (fst p) rid) \<longrightarrow> res = Inr None) \<and>
         (\<forall>j < length ins. py_eq (fst (ins ! j)) rid \<and> (\<forall>i < j. \<not> py_eq (fst (ins ! i)) rid) \<longrightarrow>
            res = Inr (Some (length (heap w) + j)) \<and>
            obj_at w' (length (heap w) + j) =
              Some (ORide \<lparr>ride_id = fst (ins ! j), ride_name = snd (ins ! j),
                 ride_detail = None, ride_segments = [], ride_stream = None\<rparr>))"
proof -
  let ?mk = "\<lambda>p. ORide \<lparr>ride_id = fst p, ride_name = snd p,
             ride_detail = None, ride_segments = [], ride_stream = None\<rparr>"
  let ?n = "length (heap w)"
  let ?w0 = "w\<lparr>log := log w @ [BASE_API @ athlete_url self]\<rparr>"
  let ?w1 = "?w0\<lparr>heap := heap w @ map ?mk ins\<rparr>"
  let ?refs = "[?n ..< ?n + length ins]"
  have ld: "load E (athlete_url self) (Some ''rides'') w = (Inr (JList entries), ?w0)"
    using assms(1,2) by (simp add: load_def)
  have rs: "rides E self None w = (Inr ?refs, ?w1)"
    using ld rides_loop_ok [OF assms(3), of "[]" ?w0] by (simp add: rides_def)
  have res: "res = Inr (find (has_id ?w1 rid) ?refs)" and w': "w' = ?w1"
    using assms(4) rs by (auto simp: ride_def)
  have hid: "has_id ?w1 rid (?n + j) = py_eq (fst (ins ! j)) rid" if "j < length ins" for j
    using that by (simp add: has_id_def obj_at_def nth_append)
  have 1: "log w' = log w @ [BASE_API @ athlete_url self]" using w' by simp
  have 2: "res = Inr None" if "\<not> (\<exists>p \<in> set ins. py_eq (fst p) rid)"
  proof -
    have "\<not> has_id ?w1 rid x" if "x \<in> set ?refs" for x
    proof -
      from that obtain j where j: "j < length ins" "x = ?n + j"
        by (auto simp: nat_le_iff_add)
      then have "ins ! j \<in> set ins" by simp
      then show ?thesis using j hid [of j] \<open>\<not> (\<exists>p \<in> set ins. py_eq (fst p) rid)\<close>
        by blast
    qed
    then have "find (has_id ?w1 rid) ?refs = None" by (simp add: find_None_iff)
    then show ?thesis using res by simp
  qed
  have 3: "res = Inr (Some (?n + j)) \<and> obj_at w' (?n + j) = Some (?mk (ins ! j))"
    if j: "j < length ins" and m: "py_eq (fst (ins ! j)) rid"
      and f: "\<forall>i < j. \<not> py_eq (fst (ins ! i)) rid" for j
  proof -
    have "find (has_id ?w1 rid) ?refs = Some (?n + j)"
      unfolding find_Some_iff
    proof (intro exI [of _ j] conjI allI impI)
      show "j < length ?refs" using j by simp
      show "has_id ?w1 rid (?refs ! j)" using j m hid [of j] by simp
      show "?n + j = ?refs ! j" using j by simp
      fix i assume "i < j"
      then show "\<not> has_id ?w1 rid (?refs ! i)" using j f hid [of i] by simp
    qed
    moreover have "obj_at w' (?n + j) = Some (?mk (ins ! j))"
      using j w' by (simp add: obj_at_def nth_append)
    ultimately show ?thesis using res by simp
  qed
  show ?thesis using 1 2 3 by blast
qed

theorem Athlete_ride_first_match_witness:
  "fst (ride demo_env (Athlete_init demo_env (JNum 7)) (JNum 2) demo_world) = Inr (Some 3) \<and>
   obj_at (snd (ride demo_env (Athlete_init demo_env (JNum 7)) (JNum 2) demo_world)) 3 =
     Some (ORide \<lparr>ride_id = JNum 2, ride_name = JStr ''Hill'',
                  ride_detail = None, ride_segments = [], ride_stream = None\<rparr>) \<and>
   fst (ride demo_env (Athlete_init demo_env (JNum 7)) (JNum 9) demo_world) = Inr None \<and>
   log (snd (ride demo_env (Athlete_init demo_env (JNum 7)) (JNum 9) demo_world)) =
     [''http://www.strava.com/api/v1/rides?athleteId=7'']"
proof -
  let ?A = "Athlete_init demo_env (JNum 7)"
  let ?ins = "[(JNum 1, JStr ''Loop''), (JNum 2, JStr ''Hill'')]"
  let ?entries = "[JObj [(''id'', JNum 1), (''name'', JStr ''Loop'')],
                   JObj [(''id'', JNum 2), (''name'', JStr ''Hill'')]]"
  have url: "BASE_API @ athlete_url ?A = ''http://www.strava.com/api/v1/rides?athleteId=7''"
    by (simp add: Athlete_init_def demo_defs dec.simps)
  have h1: "urlopen demo_env (log demo_world) (BASE_API @ athlete_url ?A) =
      Decoded (JObj [(''rides'', JList ?entries)])"
    unfolding url by (simp add: demo_defs)
  have h2: "map_of [(''rides'', JList ?entries)] ''rides'' = Some (JList ?entries)" by simp
  have h3: "list_all2 (\<lambda>e p. subscript e ''id'' = Inr (fst p) \<and>
                          subscript e ''name'' = Inr (snd p)) ?entries ?ins"
    by simp
  have hp: "length (heap demo_world) = 2" and lg: "log demo_world = []"
    by (simp_all add: demo_defs)
  note T2 = Athlete_ride_first_match [OF h1 h2 h3 prod.collapse [symmetric], of "JNum 2"]
  note T9 = Athlete_ride_first_match [OF h1 h2 h3 prod.collapse [symmetric], of "JNum 9"]
  from T2 have "\<forall>j < length ?ins. py_eq (fst (?ins ! j)) (JNum 2) \<and>
        (\<forall>i < j. \<not> py_eq (fst (?ins ! i)) (JNum 2)) \<longrightarrow>
      fst (ride demo_env ?A (JNum 2) demo_world) = Inr (Some (length (heap demo_world) + j)) \<and>
      obj_at (snd (ride demo_env ?A (JNum 2) demo_world)) (length (heap demo_world) + j) =
        Some (ORide \<lparr>ride_id = fst (?ins ! j), ride_name = snd (?ins ! j),
                 ride_detail = None, ride_segments = [], ride_stream = None\<rparr>)"
    by blast
  from this [rule_format, of 1] hp
  have a: "fst (ride demo_env ?A (JNum 2) demo_world) = Inr (Some 3) \<and>
      obj_at (snd (ride demo_env ?A (JNum 2) demo_world)) 3 =
        Some (ORide \<lparr>ride_id = JNum 2, ride_name = JStr ''Hill'',
                  ride_detail = None, ride_segments = [], ride_stream = None\<rparr>)"
    by simp
  from T9 have b: "fst (ride demo_env ?A (JNum 9) demo_world) = Inr None" by simp
  from T9 url lg
  have c: "log (snd (ride demo_env ?A (JNum 9) demo_world)) =
      [''http://www.strava.com/api/v1/rides?athleteId=7'']"
    by simp
  show ?thesis using a b c by blast
qed

text \<open>
  C10. The fetch succeeds and the listing is a list of mappings, one of which lacks a
  key the constructor reads: \<open>rides\<close> then fails with \<open>KeyError\<close> of \<^verbatim>\<open>id\<close> or \<^verbatim>\<open>name\<close>,
  and \<open>segments\<close>, on a ride whose list is empty, with \<open>KeyError\<close> of \<^verbatim>\<open>id\<close>,
  \<^verbatim>\<open>segment\<close> or \<^verbatim>\<open>elapsed_time\<close>. \<open>KeyError\<close> is another error than \<open>APIError\<close>.
\<close>

theorem malformed_entry_KeyError:
  "(url = (case start_date of None \<Rightarrow> athlete_url self
            | Some d \<Rightarrow> athlete_url self @ ''&startDate='' @ isoformat E d) \<and>
    urlopen E (log w) (BASE_API @ url) = Decoded (JObj kvs) \<and>
    map_of kvs ''rides'' = Some (JList entries) \<and>
    (\<forall>e \<in> set entries. \<exists>evs. e = JObj evs) \<and>
    (\<exists>evs. JObj evs \<in> set entries \<and> (map_of evs ''id'' = None \<or> map_of evs ''name'' = None))
    \<longrightarrow> (\<exists>k w'. rides E self start_date w = (Inl (KeyError k), w') \<and>
            (k = ''id'' \<or> k = ''name'') \<and> log w' = log w @ [BASE_API @ url])) \<and>
   (obj_at w a = Some (ORide r) \<and> ride_segments r = [] \<and>
    u = ''/rides/'' @ format_s E (ride_id r) @ ''/efforts'' \<and>
    urlopen E (log w) (BASE_API @ u) = Decoded (JObj lvs) \<and>
    map_of lvs ''efforts'' = Some (JList efforts) \<and>
    (\<forall>e \<in> set efforts. \<exists>evs. e = JObj evs) \<and>
    (\<exists>evs. JObj evs \<in> set efforts \<and>
       (map_of evs ''id'' = None \<or> map_of evs ''segment'' = None \<or>
        map_of evs ''elapsed_time'' = None))
    \<longrightarrow> (\<exists>k w'. Ride_segments E a w = (Inl (KeyError k), w') \<and>
            (k = ''id'' \<or> k = ''segment'' \<or> k = ''elapsed_time'') \<and>
            log w' = log w @ [BASE_API @ u]))"
proof (intro conjI impI)
  assume h: "url = (case start_date of None \<Rightarrow> athlete_url self
            | Some d \<Rightarrow> athlete_url self @ ''&startDate='' @ isoformat E d) \<and>
    urlopen E (log w) (BASE_API @ url) = Decoded (JObj kvs) \<and>
    map_of kvs ''rides'' = Some (JList entries) \<and>
    (\<forall>e \<in> set entries. \<exists>evs. e = JObj evs) \<and>
    (\<exists>evs. JObj evs \<in> set entries \<and> (map_of evs ''id'' = None \<or> map_of evs ''name'' = None))"
  let ?w0 = "w\<lparr>log := log w @ [BASE_API @ url]\<rparr>"
  from h have ue0: "url = (case start_date of None \<Rightarrow> athlete_url self
            | Some d \<Rightarrow> athlete_url self @ ''&startDate='' @ isoformat E d)"
    and uo: "urlopen E (log w) (BASE_API @ url) = Decoded (JObj kvs)"
    and mk: "map_of kvs ''rides'' = Some (JList entries)"
    by blast+
  note ue = ue0 [symmetric]
  have ld: "load E url (Some ''rides'') w = (Inr (JList entries), ?w0)"
    using uo mk by (simp add: load_def)
  from h have all: "\<forall>e \<in> set entries. \<exists>evs. e = JObj evs"
    and bad: "\<exists>evs. JObj evs \<in> set entries \<and>
      (map_of evs ''id'' = None \<or> map_of evs ''name'' = None)"
    by blast+
  from rides_loop_bad [OF all bad, of "[]" ?w0] obtain k w' where
    "rides_loop entries [] ?w0 = (Inl (KeyError k), w')" "k = ''id'' \<or> k = ''name''"
    "log w' = log ?w0"
    by blast
  moreover have "rides E self start_date w = rides_loop entries [] ?w0"
    unfolding rides_def Let_def ue using ld by simp
  ultimately show "\<exists>k w'. rides E self start_date w = (Inl (KeyError k), w') \<and>
            (k = ''id'' \<or> k = ''name'') \<and> log w' = log w @ [BASE_API @ url]"
    by simp
next
  assume h: "obj_at w a = Some (ORide r) \<and> ride_segments r = [] \<and>
    u = ''/rides/'' @ format_s E (ride_id r) @ ''/efforts'' \<and>
    urlopen E (log w) (BASE_API @ u) = Decoded (JObj lvs) \<and>
    map_of lvs ''efforts'' = Some (JList efforts) \<and>
    (\<forall>e \<in> set efforts. \<exists>evs. e = JObj evs) \<and>
    (\<exists>evs. JObj evs \<in> set efforts \<and>
       (map_of evs ''id'' = None \<or> map_of evs ''segment'' = None \<or>
        map_of evs ''elapsed_time'' = None))"
  let ?w0 = "w\<lparr>log := log w @ [BASE_API @ u]\<rparr>"
  from h have ue0: "u = ''/rides/'' @ format_s E (ride_id r) @ ''/efforts''"
    and uo: "urlopen E (log w) (BASE_API @ u) = Decoded (JObj lvs)"
    and mk: "map_of lvs ''efforts'' = Some (JList efforts)"
    and ra: "obj_at w a = Some (ORide r)" and emp: "ride_segments r = []"
    by blast+
  note ue = ue0 [symmetric]
  have ld: "load E u (Some ''efforts'') w = (Inr (JList efforts), ?w0)"
    using uo mk by (simp add: load_def)
  from ra have r: "\<exists>r. obj_at ?w0 a = Some (ORide r)" by simp
  from h have all: "\<forall>e \<in> set efforts. \<exists>evs. e = JObj evs"
    and bad: "\<exists>evs. JObj evs \<in> set efforts \<and>
       (map_of evs ''id'' = None \<or> map_of evs ''segment'' = None \<or>
        map_of evs ''elapsed_time'' = None)"
    by blast+
  from segments_loop_bad [OF r all bad] obtain k w' where
    sl: "segments_loop a efforts ?w0 = (Inl (KeyError k), w')"
    and k: "k = ''id'' \<or> k = ''segment'' \<or> k = ''elapsed_time''"
    and lg: "log w' = log ?w0"
    by blast
  have "Ride_segments E a w = (Inl (KeyError k), w')"
    using ra emp ld [unfolded ue0] sl [unfolded ue0] by (simp add: Ride_segments_def)
  then show "\<exists>k w'. Ride_segments E a w = (Inl (KeyError k), w') \<and>
            (k = ''id'' \<or> k = ''segment'' \<or> k = ''elapsed_time'') \<and>
            log w' = log w @ [BASE_API @ u]"
    using k lg by simp
qed

theorem malformed_entry_KeyError_witness:
  "(\<exists>k w'. rides demo_env (Athlete_init demo_env (JNum 8)) None demo_world =
             (Inl (KeyError k), w') \<and> (k = ''id'' \<or> k = ''name'') \<and>
           log w' = [''http://www.strava.com/api/v1/rides?athleteId=8'']) \<and>
   (\<exists>k w'. Ride_segments demo_env 0
             \<lparr>log = [], heap = [ORide \<lparr>ride_id = JNum 3, ride_name = JStr ''Flat'',
                ride_detail = None, ride_segments = [], ride_stream = None\<rparr>]\<rparr> =
             (Inl (KeyError k), w') \<and>
           (k = ''id'' \<or> k = ''segment'' \<or> k = ''elapsed_time'') \<and>
           log w' = [''http://www.strava.com/api/v1/rides/3/efforts''])"
proof -
  let ?A = "Athlete_init demo_env (JNum 8)"
  let ?r = "\<lparr>ride_id = JNum 3, ride_name = JStr ''Flat'',
                ride_detail = None, ride_segments = [], ride_stream = None\<rparr>"
  let ?w = "\<lparr>log = [], heap = [ORide ?r]\<rparr>"
  let ?entries = "[JObj [(''id'', JNum 3)]]"
  let ?efforts = "[JObj [(''id'', JNum 12),
               (''segment'', JObj [(''id'', JNum 5), (''name'', JStr ''Climb'')])]]"
  note T = malformed_entry_KeyError [where E = demo_env and self = ?A and start_date = None
      and url = "''/rides?athleteId=8''" and w = demo_world
      and kvs = "[(''rides'', JList ?entries)]" and entries = ?entries]
  have h1: "''/rides?athleteId=8'' = (case None of None \<Rightarrow> athlete_url ?A
            | Some d \<Rightarrow> athlete_url ?A @ ''&startDate='' @ isoformat demo_env d) \<and>
    urlopen demo_env (log demo_world) (BASE_API @ ''/rides?athleteId=8'') =
      Decoded (JObj [(''rides'', JList ?entries)]) \<and>
    map_of [(''rides'', JList ?entries)] ''rides'' = Some (JList ?entries) \<and>
    (\<forall>e \<in> set ?entries. \<exists>evs. e = JObj evs) \<and>
    (\<exists>evs. JObj evs \<in> set ?entries \<and> (map_of evs ''id'' = None \<or> map_of evs ''name'' = None))"
    by (simp add: Athlete_init_def demo_defs dec.simps)
  from T h1 have "\<exists>k w'. rides demo_env ?A None demo_world = (Inl (KeyError k), w') \<and>
      (k = ''id'' \<or> k = ''name'') \<and>
      log w' = log demo_world @ [BASE_API @ ''/rides?athleteId=8'']"
    by blast
  then have a: "\<exists>k w'. rides demo_env ?A None demo_world = (Inl (KeyError k), w') \<and>
      (k = ''id'' \<or> k = ''name'') \<and>
      log w' = [''http://www.strava.com/api/v1/rides?athleteId=8'']"
    by (simp add: demo_defs)
  note S = malformed_entry_KeyError [where E = demo_env and a = 0 and r = ?r and w = ?w
      and u = "''/rides/3/efforts''"
      and lvs = "[(''efforts'', JList ?efforts)]" and efforts = ?efforts]
  have h2: "obj_at ?w 0 = Some (ORide ?r) \<and> ride_segments ?r = [] \<and>
    ''/rides/3/efforts'' = ''/rides/'' @ format_s demo_env (ride_id ?r) @ ''/efforts'' \<and>
    urlopen demo_env (log ?w) (BASE_API @ ''/rides/3/efforts'') =
      Decoded (JObj [(''efforts'', JList ?efforts)]) \<and>
    map_of [(''efforts'', JList ?efforts)] ''efforts'' = Some (JList ?efforts) \<and>
    (\<forall>e \<in> set ?efforts. \<exists>evs. e = JObj evs) \<and>
    (\<exists>evs. JObj evs \<in> set ?efforts \<and>
       (map_of evs ''id'' = None \<or> map_of evs ''segment'' = None \<or>
        map_of evs ''elapsed_time'' = None))"
    by (simp add: obj_at_def demo_defs dec.simps)
  from S h2 have "\<exists>k w'. Ride_segments demo_env 0 ?w = (Inl (KeyError k), w') \<and>
      (k = ''id'' \<or> k = ''segment'' \<or> k = ''elapsed_time'') \<and>
      log w' = log ?w @ [BASE_API @ ''/rides/3/efforts'']"
    by blast
  then have b: "\<exists>k w'. Ride_segments demo_env 0 ?w = (Inl (KeyError k), w') \<and>
      (k = ''id'' \<or> k = ''segment'' \<or> k = ''elapsed_time'') \<and>
      log w' = [''http://www.strava.com/api/v1/rides/3/efforts'']"
    by (simp add: demo_defs)
  show ?thesis using a b by blast
qed

text \<open>
  C4, as the code has it. The start date \<open>today - days\<close> is a date, the listing from
  that date has \<open>K\<close> well-formed entries, and the detail of each ride has the numbers
  \<open>mv\<close> and \<open>dv\<close> as moving time and distance, which stand for the floats \<open>x\<close> and \<open>y\<close>.
  Then \<open>ride_stats\<close> requests the listing and then the detail of each ride, once, in the
  order of the listing, and its statistics read the float sums of \<open>K\<close> terms \<open>1.0\<close>, of
  \<open>K\<close> terms \<open>x\<close> and of \<open>K\<close> terms \<open>y\<close>, each accumulated from \<open>0.0\<close> one ride at a time,
  every addition rounded to the nearest double. The count reads \<open>K\<close> when \<open>K\<close> is at
  most \<open>2 ^ 53\<close>. A sum reads the product of \<open>K\<close> and the term when the term is finite
  and every multiple of it by \<open>1, \<dots>, K\<close> is a double; that is so, in particular, when
  the number is an integer whose product with \<open>K\<close> is at most \<open>2 ^ 53\<close> in magnitude.
\<close>

theorem ride_stats_totals:
  assumes "date_minus_days (today E) days = Inr start"
    and "url = athlete_url self @ ''&startDate='' @ isoformat E start"
    and "urlopen E (log w) (BASE_API @ url) = Decoded (JObj kvs)"
    and "map_of kvs ''rides'' = Some (JList entries)"
    and "list_all2 (\<lambda>e p. subscript e ''id'' = Inr (fst p) \<and>
                          subscript e ''name'' = Inr (snd p)) entries ins"
    and "\<forall>p \<in> set ins. \<forall>lg. \<exists>dvs attr.
           urlopen E lg (BASE_API @ ''/rides/'' @ format_s E (fst p)) = Decoded (JObj dvs) \<and>
           map_of dvs ''ride'' = Some (JObj attr) \<and>
           map_of attr ''movingTime'' = Some mv \<and>
           map_of attr ''distance'' = Some dv"
    and "as_float mv = Inr x"
    and "as_float dv = Inr y"
  shows "stat (fst (ride_stats E self days w)) ''rides'' =
           Inr (((\<lambda>s. float_add s (Finite 1)) ^^ length ins) (Finite 0)) \<and>
         stat (fst (ride_stats E self days w)) ''moving_time'' =
           Inr (((\<lambda>s. float_add s x) ^^ length ins) (Finite 0)) \<and>
         stat (fst (ride_stats E self days w)) ''distance'' =
           Inr (((\<lambda>s. float_add s y) ^^ length ins) (Finite 0)) \<and>
         log (snd (ride_stats E self days w)) =
           log w @ [BASE_API @ url] @
           map (\<lambda>p. BASE_API @ ''/rides/'' @ format_s E (fst p)) ins \<and>
         (int (length ins) \<le> 2 ^ 53 \<longrightarrow>
            stat (fst (ride_stats E self days w)) ''rides'' =
              Inr (Finite (of_nat (length ins)))) \<and>
         (x = Finite m \<and>
          (\<forall>j. 1 \<le> j \<and> j \<le> length ins \<longrightarrow>
             round_double (of_nat j * m) = Finite (of_nat j * m)) \<longrightarrow>
            stat (fst (ride_stats E self days w)) ''moving_time'' =
              Inr (Finite (of_nat (length ins) * m))) \<and>
         (y = Finite d \<and>
          (\<forall>j. 1 \<le> j \<and> j \<le> length ins \<longrightarrow>
             round_double (of_nat j * d) = Finite (of_nat j * d)) \<longrightarrow>
            stat (fst (ride_stats E self days w)) ''distance'' =
              Inr (Finite (of_nat (length ins) * d))) \<and>
         (mv = JNum M \<and> int (length ins) * \<bar>M\<bar> \<le> 2 ^ 53 \<longrightarrow>
            stat (fst (ride_stats E self days w)) ''moving_time'' =
              Inr (Finite (of_int (int (length ins) * M)))) \<and>
         (dv = JNum D \<and> int (length ins) * \<bar>D\<bar> \<le> 2 ^ 53 \<longrightarrow>
            stat (fst (ride_stats E self days w)) ''distance'' =
              Inr (Finite (of_int (int (length ins) * D))))"
proof -
  note S = ride_stats_float_sums [OF assms]
  from S have s1: "stat (fst (ride_stats E self days w)) ''rides'' =
           Inr (((\<lambda>s. float_add s (Finite 1)) ^^ length ins) (Finite 0))"
    and s2: "stat (fst (ride_stats E self days w)) ''moving_time'' =
           Inr (((\<lambda>s. float_add s x) ^^ length ins) (Finite 0))"
    and s3: "stat (fst (ride_stats E self days w)) ''distance'' =
           Inr (((\<lambda>s. float_add s y) ^^ length ins) (Finite 0))"
    and s4: "log (snd (ride_stats E self days w)) =
           log w @ [BASE_API @ url] @
           map (\<lambda>p. BASE_API @ ''/rides/'' @ format_s E (fst p)) ins"
    by blast+
  have c1: "stat (fst (ride_stats E self days w)) ''rides'' =
      Inr (Finite (of_nat (length ins)))" if "int (length ins) \<le> 2 ^ 53"
    unfolding s1 float_sum_ones [OF that] ..
  have c2: "stat (fst (ride_stats E self days w)) ''moving_time'' =
      Inr (Finite (of_nat (length ins) * m))"
    if "x = Finite m \<and> (\<forall>j. 1 \<le> j \<and> j \<le> length ins \<longrightarrow>
             round_double (of_nat j * m) = Finite (of_nat j * m))"
  proof -
    from that have xm: "x = Finite m"
      and ex: "\<forall>j. 1 \<le> j \<and> j \<le> length ins \<longrightarrow>
             round_double (of_nat j * m) = Finite (of_nat j * m)"
      by blast+
    show ?thesis unfolding s2 xm funpow_exact [OF ex] ..
  qed
  have c3: "stat (fst (ride_stats E self days w)) ''distance'' =
      Inr (Finite (of_nat (length ins) * d))"
    if "y = Finite d \<and> (\<forall>j. 1 \<le> j \<and> j \<le> length ins \<longrightarrow>
             round_double (of_nat j * d) = Finite (of_nat j * d))"
  proof -
    from that have yd: "y = Finite d"
      and ex: "\<forall>j. 1 \<le> j \<and> j \<le> length ins \<longrightarrow>
             round_double (of_nat j * d) = Finite (of_nat j * d)"
      by blast+
    show ?thesis unfolding s3 yd funpow_exact [OF ex] ..
  qed
  have c4: "stat (fst (ride_stats E self days w)) ''moving_time'' =
      Inr (Finite (of_int (int (length ins) * M)))"
    if "mv = JNum M \<and> int (length ins) * \<bar>M\<bar> \<le> 2 ^ 53"
  proof -
    from that assms(7) have a: "as_float (JNum M) = Inr x"
      and b: "int (length ins) * \<bar>M\<bar> \<le> 2 ^ 53"
      by blast+
    show ?thesis unfolding s2 float_sum_int [OF a b] ..
  qed
  have c5: "stat (fst (ride_stats E self days w)) ''distance'' =
      Inr (Finite (of_int (int (length ins) * D)))"
    if "dv = JNum D \<and> int (length ins) * \<bar>D\<bar> \<le> 2 ^ 53"
  proof -
    from that assms(8) have a: "as_float (JNum D) = Inr y"
      and b: "int (length ins) * \<bar>D\<bar> \<le> 2 ^ 53"
      by blast+
    show ?thesis unfolding s3 float_sum_int [OF a b] ..
  qed
  from s1 s2 s3 s4 c1 c2 c3 c4 c5 show ?thesis by blast
qed

theorem ride_stats_totals_witness:
  "stat (fst (ride_stats demo_env (Athlete_init demo_env (JNum 7)) 7 demo_world)) ''rides'' =
     Inr (Finite 2) \<and>
   stat (fst (ride_stats demo_env (Athlete_init demo_env (JNum 7)) 7 demo_world))
     ''moving_time'' = Inr (Finite 120) \<and>
   stat (fst (ride_stats demo_env (Athlete_init demo_env (JNum 7)) 7 demo_world))
     ''distance'' = Inr (Finite 2469) \<and>
   log (snd (ride_stats demo_env (Athlete_init demo_env (JNum 7)) 7 demo_world)) =
     [''http://www.strava.com/api/v1/rides?athleteId=7&startDate=2012-01-01'',
      ''http://www.strava.com/api/v1/rides/1'', ''http://www.strava.com/api/v1/rides/2''] \<and>
   stat (fst (ride_stats demo_env (Athlete_init demo_env (JNum 9)) 7 demo_world)) ''rides'' =
     Inr (Finite 1) \<and>
   stat (fst (ride_stats demo_env (Athlete_init demo_env (JNum 9)) 7 demo_world))
     ''distance'' = Inr (Finite 5000)"
proof -
  let ?A = "Athlete_init demo_env (JNum 7)"
  let ?ins = "[(JNum 1, JStr ''Loop''), (JNum 2, JStr ''Hill'')]"
  let ?entries = "[JObj [(''id'', JNum 1), (''name'', JStr ''Loop'')],
                   JObj [(''id'', JNum 2), (''name'', JStr ''Hill'')]]"
  let ?url = "''/rides?athleteId=7&startDate=2012-01-01''"
  have h1: "date_minus_days (today demo_env) 7 = Inr 734503"
    by (simp add: date_minus_days_def demo_defs)
  have h2: "?url = athlete_url ?A @ ''&startDate='' @ isoformat demo_env 734503"
    by (simp add: Athlete_init_def demo_defs dec.simps)
  have h3: "urlopen demo_env (log demo_world) (BASE_API @ ?url) =
      Decoded (JObj [(''rides'', JList ?entries)])"
    by (simp add: demo_defs)
  have h4: "map_of [(''rides'', JList ?entries)] ''rides'' = Some (JList ?entries)" by simp
  have h5: "list_all2 (\<lambda>e p. subscript e ''id'' = Inr (fst p) \<and>
                          subscript e ''name'' = Inr (snd p)) ?entries ?ins"
    by simp
  have h6: "\<forall>p \<in> set ?ins. \<forall>lg. \<exists>dvs attr.
           urlopen demo_env lg (BASE_API @ ''/rides/'' @ format_s demo_env (fst p)) =
             Decoded (JObj dvs) \<and>
           map_of dvs ''ride'' = Some (JObj attr) \<and>
           map_of attr ''movingTime'' = Some (JNum 60) \<and>
           map_of attr ''distance'' = Some (JReal (2469 / 2))"
    by (simp add: demo_defs dec.simps)
  have h7: "as_float (JNum 60) = Inr (Finite 60)"
    by (simp add: float_of_int_def eval_double)
  have h8: "as_float (JReal (2469 / 2)) = Inr (Finite (2469 / 2))"
    by (simp add: eval_double)
  have two: "length ?ins = 2" by simp
  have k1: "int (length ?ins) \<le> 2 ^ 53" by simp
  have k2: "Finite 60 = Finite 60 \<and> (\<forall>j. 1 \<le> j \<and> j \<le> length ?ins \<longrightarrow>
      round_double (of_nat j * 60) = Finite (of_nat j * 60))"
  proof (intro conjI allI impI)
    fix j :: nat assume "1 \<le> j \<and> j \<le> length ?ins"
    then have j: "j = 1 \<or> j = 2" unfolding two by presburger
    have "round_double (of_nat 1 * 60) = Finite (of_nat 1 * 60)"
      and "round_double (of_nat 2 * 60) = Finite (of_nat 2 * 60)"
      by (simp_all add: eval_double)
    with j show "round_double (of_nat j * 60) = Finite (of_nat j * 60)" by blast
  qed simp
  have k3: "Finite (2469 / 2) = Finite (2469 / 2) \<and>
      (\<forall>j. 1 \<le> j \<and> j \<le> length ?ins \<longrightarrow>
         round_double (of_nat j * (2469 / 2)) = Finite (of_nat j * (2469 / 2)))"
  proof (intro conjI allI impI)
    fix j :: nat assume "1 \<le> j \<and> j \<le> length ?ins"
    then have j: "j = 1 \<or> j = 2" unfolding two by presburger
    have "round_double (of_nat 1 * (2469 / 2)) = Finite (of_nat 1 * (2469 / 2))"
      and "round_double (of_nat 2 * (2469 / 2)) = Finite (of_nat 2 * (2469 / 2))"
      by (simp_all add: eval_double)
    with j show "round_double (of_nat j * (2469 / 2)) = Finite (of_nat j * (2469 / 2))"
      by blast
  qed simp
  have k4: "JNum 60 = JNum 60 \<and> int (length ?ins) * \<bar>60\<bar> \<le> 2 ^ 53" by simp
  have urls: "log demo_world @ [BASE_API @ ?url] @
      map (\<lambda>p. BASE_API @ ''/rides/'' @ format_s demo_env (fst p)) ?ins =
     [''http://www.strava.com/api/v1/rides?athleteId=7&startDate=2012-01-01'',
      ''http://www.strava.com/api/v1/rides/1'', ''http://www.strava.com/api/v1/rides/2'']"
    by (simp add: demo_defs dec.simps)
  note T = ride_stats_totals [OF h1 h2 h3 h4 h5 h6 h7 h8,
      where m = 60 and d = "2469 / 2" and M = 60]
  from T k1 have "stat (fst (ride_stats demo_env ?A 7 demo_world)) ''rides'' =
      Inr (Finite (of_nat (length ?ins)))" by blast
  then have r1: "stat (fst (ride_stats demo_env ?A 7 demo_world)) ''rides'' = Inr (Finite 2)"
    unfolding two by simp
  from T k2 have "stat (fst (ride_stats demo_env ?A 7 demo_world)) ''moving_time'' =
      Inr (Finite (of_nat (length ?ins) * 60))" by blast
  then have r2: "stat (fst (ride_stats demo_env ?A 7 demo_world)) ''moving_time'' =
      Inr (Finite 120)"
    unfolding two by simp
  from T k4 have "stat (fst (ride_stats demo_env ?A 7 demo_world)) ''moving_time'' =
      Inr (Finite (of_int (int (length ?ins) * 60)))" by blast
  from T k3 have "stat (fst (ride_stats demo_env ?A 7 demo_world)) ''distance'' =
      Inr (Finite (of_nat (length ?ins) * (2469 / 2)))" by blast
  then have r3: "stat (fst (ride_stats demo_env ?A 7 demo_world)) ''distance'' =
      Inr (Finite 2469)"
    unfolding two by simp
  from T have "log (snd (ride_stats demo_env ?A 7 demo_world)) =
      log demo_world @ [BASE_API @ ?url] @
      map (\<lambda>p. BASE_API @ ''/rides/'' @ format_s demo_env (fst p)) ?ins" by blast
  then have r4: "log (snd (ride_stats demo_env ?A 7 demo_world)) =
     [''http://www.strava.com/api/v1/rides?athleteId=7&startDate=2012-01-01'',
      ''http://www.strava.com/api/v1/rides/1'', ''http://www.strava.com/api/v1/rides/2'']"
    unfolding urls .
  \<comment> \<open>athlete 9: an integer distance\<close>
  let ?B = "Athlete_init demo_env (JNum 9)"
  let ?ins9 = "[(JNum 4, JStr ''Long'')]"
  let ?entries9 = "[JObj [(''id'', JNum 4), (''name'', JStr ''Long'')]]"
  let ?url9 = "''/rides?athleteId=9&startDate=2012-01-01''"
  have g2: "?url9 = athlete_url ?B @ ''&startDate='' @ isoformat demo_env 734503"
    by (simp add: Athlete_init_def demo_defs dec.simps)
  have g3: "urlopen demo_env (log demo_world) (BASE_API @ ?url9) =
      Decoded (JObj [(''rides'', JList ?entries9)])"
    by (simp add: demo_defs)
  have g4: "map_of [(''rides'', JList ?entries9)] ''rides'' = Some (JList ?entries9)" by simp
  have g5: "list_all2 (\<lambda>e p. subscript e ''id'' = Inr (fst p) \<and>
                          subscript e ''name'' = Inr (snd p)) ?entries9 ?ins9"
    by simp
  have g6: "\<forall>p \<in> set ?ins9. \<forall>lg. \<exists>dvs attr.
           urlopen demo_env lg (BASE_API @ ''/rides/'' @ format_s demo_env (fst p)) =
             Decoded (JObj dvs) \<and>
           map_of dvs ''ride'' = Some (JObj attr) \<and>
           map_of attr ''movingTime'' = Some (JNum 9007199254740993) \<and>
           map_of attr ''distance'' = Some (JNum 5000)"
    by (simp add: demo_defs dec.simps)
  have g7: "as_float (JNum 9007199254740993) = Inr (Finite 9007199254740992)"
    by (simp add: float_of_int_def eval_double)
  have g8: "as_float (JNum 5000) = Inr (Finite 5000)"
    by (simp add: float_of_int_def eval_double)
  have one: "length ?ins9 = 1" by simp
  have l1: "int (length ?ins9) \<le> 2 ^ 53" by simp
  have l5: "JNum 5000 = JNum 5000 \<and> int (length ?ins9) * \<bar>5000\<bar> \<le> 2 ^ 53" by simp
  note U = ride_stats_totals [OF h1 g2 g3 g4 g5 g6 g7 g8, where D = 5000]
  from U l1 have "stat (fst (ride_stats demo_env ?B 7 demo_world)) ''rides'' =
      Inr (Finite (of_nat (length ?ins9)))" by blast
  then have r5: "stat (fst (ride_stats demo_env ?B 7 demo_world)) ''rides'' = Inr (Finite 1)"
    unfolding one by simp
  from U l5 have "stat (fst (ride_stats demo_env ?B 7 demo_world)) ''distance'' =
      Inr (Finite (of_int (int (length ?ins9) * 5000)))" by blast
  then have r6: "stat (fst (ride_stats demo_env ?B 7 demo_world)) ''distance'' =
      Inr (Finite 5000)"
    unfolding one by simp
  from r1 r2 r3 r4 r5 r6 show ?thesis by blast
qed

text \<open>
  C4, as the spec has it, fails, because the sums are sums of floats. Ten rides of the
  distance 0.1 give the distance \<open>1 - 2 ^ - 53\<close>, which Python prints as
  \<^verbatim>\<open>0.9999999999999999\<close>: it is neither ten times the double that 0.1 decodes to nor
  the float product \<^verbatim>\<open>10 * 0.1\<close>, which is 1. One ride of the moving time \<open>2 ^ 53 + 1\<close>,
  an integer, gives the moving time \<open>2 ^ 53\<close>.
\<close>

theorem ride_stats_rounding_counterexample:
  "as_float (JReal (1 / 10)) = Inr (Finite (3602879701896397 / 36028797018963968)) \<and>
   stat (fst (ride_stats lap_env (Athlete_init lap_env (JNum 10)) 7 \<lparr>log = [], heap = []\<rparr>))
     ''rides'' = Inr (Finite 10) \<and>
   stat (fst (ride_stats lap_env (Athlete_init lap_env (JNum 10)) 7 \<lparr>log = [], heap = []\<rparr>))
     ''distance'' = Inr (Finite (9007199254740991 / 9007199254740992)) \<and>
   stat (fst (ride_stats lap_env (Athlete_init lap_env (JNum 10)) 7 \<lparr>log = [], heap = []\<rparr>))
     ''distance'' \<noteq> Inr (Finite (10 * (3602879701896397 / 36028797018963968))) \<and>
   stat (fst (ride_stats lap_env (Athlete_init lap_env (JNum 10)) 7 \<lparr>log = [], heap = []\<rparr>))
     ''distance'' \<noteq> Inr (round_double (10 * (3602879701896397 / 36028797018963968))) \<and>
   stat (fst (ride_stats demo_env (Athlete_init demo_env (JNum 9)) 7 demo_world)) ''rides'' =
     Inr (Finite 1) \<and>
   stat (fst (ride_stats demo_env (Athlete_init demo_env (JNum 9)) 7 demo_world))
     ''moving_time'' = Inr (Finite 9007199254740992)"
proof -
  let ?W = "\<lparr>log = [], heap = []\<rparr> :: world"
  let ?A = "Athlete_init lap_env (JNum 10)"
  let ?ids = "[21, 22, 23, 24, 25, 26, 27, 28, 29, 30] :: int list"
  let ?ins = "map (\<lambda>i. (JNum i, JStr ''Lap'')) ?ids"
  let ?entries = "map (\<lambda>i. JObj [(''id'', JNum i), (''name'', JStr ''Lap'')]) ?ids"
  let ?url = "''/rides?athleteId=10&startDate=2012-01-01''"
  let ?D = "3602879701896397 / 36028797018963968 :: rat"
  have h1: "date_minus_days (today lap_env) 7 = Inr 734503"
    by (simp add: date_minus_days_def lap_defs)
  have h2: "?url = athlete_url ?A @ ''&startDate='' @ isoformat lap_env 734503"
    by (simp add: Athlete_init_def lap_defs dec.simps)
  have h3: "urlopen lap_env (log ?W) (BASE_API @ ?url) =
      Decoded (JObj [(''rides'', JList ?entries)])"
    by (simp add: lap_defs)
  have h4: "map_of [(''rides'', JList ?entries)] ''rides'' = Some (JList ?entries)" by simp
  have h5: "list_all2 (\<lambda>e p. subscript e ''id'' = Inr (fst p) \<and>
                          subscript e ''name'' = Inr (snd p)) ?entries ?ins"
    by simp
  have h6: "\<forall>p \<in> set ?ins. \<forall>lg. \<exists>dvs attr.
           urlopen lap_env lg (BASE_API @ ''/rides/'' @ format_s lap_env (fst p)) =
             Decoded (JObj dvs) \<and>
           map_of dvs ''ride'' = Some (JObj attr) \<and>
           map_of attr ''movingTime'' = Some (JNum 60) \<and>
           map_of attr ''distance'' = Some (JReal (1 / 10))"
    by (simp add: lap_defs dec.simps)
  have h7: "as_float (JNum 60) = Inr (Finite 60)"
    by (simp add: float_of_int_def eval_double)
  have h8: "as_float (JReal (1 / 10)) = Inr (Finite ?D)"
    by (simp add: eval_double)
  have ten: "length ?ins = Suc (Suc (Suc (Suc (Suc (Suc (Suc (Suc (Suc (Suc 0)))))))))"
    by simp
  note S = ride_stats_float_sums [OF h1 h2 h3 h4 h5 h6 h7 h8]
  have ones: "((\<lambda>s. float_add s (Finite 1)) ^^ length ?ins) (Finite 0) = Finite 10"
    unfolding ten by (simp add: eval_double)
  have tenths: "((\<lambda>s. float_add s (Finite ?D)) ^^ length ?ins) (Finite 0) =
      Finite (9007199254740991 / 9007199254740992)"
    unfolding ten by (simp add: eval_double)
  from S have c1: "stat (fst (ride_stats lap_env ?A 7 ?W)) ''rides'' = Inr (Finite 10)"
    unfolding ones by blast
  from S have c2: "stat (fst (ride_stats lap_env ?A 7 ?W)) ''distance'' =
      Inr (Finite (9007199254740991 / 9007199254740992))"
    unfolding tenths by blast
  have c3: "stat (fst (ride_stats lap_env ?A 7 ?W)) ''distance'' \<noteq> Inr (Finite (10 * ?D))"
    unfolding c2 by simp
  have c4: "stat (fst (ride_stats lap_env ?A 7 ?W)) ''distance'' \<noteq>
      Inr (round_double (10 * ?D))"
    unfolding c2 by (simp add: eval_double)
  have c5: "stat (fst (ride_stats demo_env (Athlete_init demo_env (JNum 9)) 7 demo_world))
       ''rides'' = Inr (Finite 1) \<and>
     stat (fst (ride_stats demo_env (Athlete_init demo_env (JNum 9)) 7 demo_world))
       ''moving_time'' = Inr (Finite 9007199254740992)"
    by (simp add: ride_stats_def date_minus_days_def rides_def load_def Ride_init_def new_def
        Athlete_init_def Ride_detail_def RideDetail_init_def obj_at_def put_def detail_at_def
        RideDetail_moving_time_def RideDetail_distance_def iadd_def stats_get_def
        float_plus_def float_of_int_def eval_double stat_def demo_defs dec.simps)
  from h8 c1 c2 c3 c4 c5 show ?thesis by blast
qed

end
